theory Spec2Isabelle
  imports Main "HOL-Library.Multiset"
begin

section \<open>Data model\<close>

text \<open>
  Rows of the five tables read by \<^verbatim>\<open>src/app/admin/_actions/activities-optimized.ts\<close>.
  A row carries the columns that the code selects, filters or orders by; the Prisma schema
  itself is not part of the sources, so identifiers of users are taken to be numbers (the code
  calls \<^verbatim>\<open>user.id.toString()\<close>) and all other identifiers strings. A \<^verbatim>\<open>Date\<close> is its
  \<^verbatim>\<open>getTime()\<close> value, an integer number of milliseconds; a nullable column is an option.
\<close>

record userRow =
  u_id :: nat
  u_email :: string
  u_firstName :: "string option"
  u_lastName :: "string option"
  u_companyName :: "string option"
  u_phone :: "string option"
  u_createdAt :: int
  u_lastLogin :: "int option"
  u_emailVerified :: "int option"
  u_isNewUser :: bool
  u_role :: string

record quoteRow =
  q_id :: string
  q_reference :: string
  q_status :: string
  q_total :: int
  q_createdAt :: int
  q_updatedAt :: int
  q_userId :: "nat option"
  q_lines :: "string list"

record formRow =
  f_id :: string
  f_formType :: string
  f_data :: string
  f_submittedAt :: int
  f_status :: string
  f_ipAddress :: "string option"

record subscriberRow =
  n_id :: string
  n_email :: string
  n_status :: string
  n_subscribedAt :: int
  n_unsubscribedAt :: "int option"

record analyticsRow =
  a_eventType :: string

text \<open>
  The row shape returned by the raw SQL query of the aggregator (quote left-joined with user);
  its constant column \<^verbatim>\<open>type\<close> is left out, the mapper does not read it.
\<close>

record quoteActivityRow =
  qa_id :: string
  qa_reference :: string
  qa_status :: string
  qa_total :: int
  qa_createdAt :: int
  qa_userId :: "nat option"
  qa_email :: "string option"
  qa_firstName :: "string option"
  qa_lastName :: "string option"

datatype activityType =
  user_registration | quote_request | checkout | newsletter_signup | form_submission

record actor =
  actor_id :: "string option"
  actor_email :: string
  actor_name :: "string option"

record activityData =
  reference :: "string option"
  amount :: "int option"
  items :: "nat option"
  formType :: "string option"
  data_status :: "string option"
  message :: "string option"

record ActivityEvent =
  ev_id :: string
  ev_type :: activityType
  timestamp :: int
  ev_actor :: actor
  ev_data :: activityData
  ev_status :: string

text \<open>
  Offset and limit are JavaScript numbers. What reaches the fetchers from their caller among
  these sources, the read endpoint, is a non-negative integer or \<^verbatim>\<open>NaN\<close> (a parameter such as
  \<^verbatim>\<open>?limit=abc\<close>); an integer is exact here, as a double is up to \<open>2^53\<close>. A sum or a
  product with \<^verbatim>\<open>NaN\<close> is \<^verbatim>\<open>NaN\<close>, every comparison with \<^verbatim>\<open>NaN\<close> is false, and
  \<^verbatim>\<open>slice(0, NaN)\<close> is empty.
\<close>

datatype jsnum = Num nat | NaN

fun js_add :: "jsnum \<Rightarrow> jsnum \<Rightarrow> jsnum" where
  "js_add (Num a) (Num b) = Num (a + b)"
| "js_add a b = NaN"

fun js_mul :: "jsnum \<Rightarrow> jsnum \<Rightarrow> jsnum" where
  "js_mul (Num a) (Num b) = Num (a * b)"
| "js_mul a b = NaN"

fun js_less :: "jsnum \<Rightarrow> jsnum \<Rightarrow> bool" where
  "js_less (Num a) (Num b) = (a < b)"
| "js_less a b = False"

fun js_le :: "jsnum \<Rightarrow> jsnum \<Rightarrow> bool" where
  "js_le (Num a) (Num b) = (a \<le> b)"
| "js_le a b = False"

fun slice0 :: "jsnum \<Rightarrow> 'a list \<Rightarrow> 'a list" where
  "slice0 (Num n) xs = take n xs"
| "slice0 NaN xs = []"

text \<open>
  \<^verbatim>\<open>PaginatedResult<T>\<close>: the element type \<^verbatim>\<open>T\<close> of the five fetchers is one of the
  five alternatives of \<open>item\<close>. The field \<^verbatim>\<open>total\<close> is named \<open>total'\<close>.
\<close>

datatype item =
  ActivityItem ActivityEvent
  | QuoteItem quoteRow "userRow option"
  | UserItem userRow
  | SubscriberItem subscriberRow
  | FormItem formRow

record PaginatedResult =
  data :: "item list"
  total' :: nat
  offset :: jsnum
  limit :: jsnum
  hasMore :: bool

record dashboardStats =
  totalUsers :: nat
  newUsersThisWeek :: nat
  totalQuotes :: nat
  pendingQuotes :: nat
  totalNewsletterSubscribers :: nat
  totalFormSubmissions :: nat
  totalCheckouts :: nat

text \<open>
  The values that travel through \<^verbatim>\<open>getCachedQuery<T>\<close>: the two object shapes the
  dashboard stores, and the JavaScript primitives. \<open>truthy\<close> is JavaScript's \<^verbatim>\<open>ToBoolean\<close>;
  an object is always truthy.
\<close>

datatype jsval =
  JNull | JBool bool | JNum int | JStr string | JPage PaginatedResult | JStats dashboardStats

fun truthy :: "jsval \<Rightarrow> bool" where
  "truthy JNull = False"
| "truthy (JBool b) = b"
| "truthy (JNum n) = (n \<noteq> 0)"
| "truthy (JStr s) = (s \<noteq> [])"
| "truthy (JPage p) = True"
| "truthy (JStats s) = True"

datatype error = QueryTimeout nat | QueryFailed | RecordNotFound | RedisError | InvalidArgument

section \<open>String helpers\<close>

primrec startsWith :: "string \<Rightarrow> string \<Rightarrow> bool" where
  "startsWith s [] = True"
| "startsWith s (c # cs) = (case s of [] \<Rightarrow> False | d # ds \<Rightarrow> d = c \<and> startsWith ds cs)"

fun includes_str :: "string \<Rightarrow> string \<Rightarrow> bool" where
  "includes_str [] sub = (sub = [])"
| "includes_str (c # cs) sub = (startsWith (c # cs) sub \<or> includes_str cs sub)"

text \<open>
  \<^verbatim>\<open>trim\<close> strips white space at both ends. The characters of the model are bytes, so
  only the ASCII white space is known to it; the Unicode white space that JavaScript strips
  as well (U+00A0 and others) is not represented.
\<close>

definition is_space :: "char \<Rightarrow> bool" where
  "is_space c = (c = CHR '' '' \<or> c = CHR 0x09 \<or> c = CHR 0x0A \<or> c = CHR 0x0B
     \<or> c = CHR 0x0C \<or> c = CHR 0x0D)"

definition trim :: "string \<Rightarrow> string" where
  "trim s = rev (dropWhile is_space (rev (dropWhile is_space s)))"

text \<open>\<^verbatim>\<open>x || d\<close> on a nullable string: \<^verbatim>\<open>null\<close> and the empty string are falsy.\<close>

definition or_str :: "string option \<Rightarrow> string \<Rightarrow> string" where
  "or_str x d = (case x of None \<Rightarrow> d | Some s \<Rightarrow> if s = [] then d else s)"

definition digit :: "nat \<Rightarrow> char" where
  "digit n = ''0123456789'' ! n"

text \<open>
  Decimal rendering of a number, as a template literal renders it: all the digits of an
  integer (JavaScript does so below \<open>10^21\<close> and turns to exponent form from there on), and
  \<^verbatim>\<open>NaN\<close> for \<^verbatim>\<open>NaN\<close>.
\<close>

function show_nat :: "nat \<Rightarrow> string" where
  "show_nat n = (if n < 10 then [digit n] else show_nat (n div 10) @ [digit (n mod 10)])"
  by pat_completeness auto
termination
  by (relation "measure id") auto

declare show_nat.simps [simp del]

fun show_num :: "jsnum \<Rightarrow> string" where
  "show_num (Num n) = show_nat n"
| "show_num NaN = ''NaN''"

section \<open>The Redis store\<close>

text \<open>
  The Upstash client is external. Its key space is an association list of
  \<open>(key, value, expiry)\<close>; an entry written by \<^verbatim>\<open>SETEX\<close> at time \<open>now\<close> with \<open>ttl\<close>
  seconds expires at \<open>now + ttl * 1000\<close> milliseconds and is invisible from then on.
  \<^verbatim>\<open>KEYS pattern\<close> matches glob-style: \<^verbatim>\<open>*\<close>, \<^verbatim>\<open>?\<close>, \<^verbatim>\<open>[...]\<close> and the escape
  \<^verbatim>\<open>\\<close>; every other character stands for itself. A value is stored as
  \<^verbatim>\<open>JSON.stringify(value)\<close> and parsed back by the client on \<^verbatim>\<open>get\<close>; the store holds
  the value itself, since the round trip changes nothing that the model distinguishes (a
  \<^verbatim>\<open>Date\<close> comes back as its ISO string, the same instant).
  \<open>reachable\<close> says whether a request to the server succeeds; when it does not, the client
  call throws.
\<close>

datatype classItem = Single char | Range char char

datatype tok = Star | AnyChar | Lit char | Class bool "classItem list"

datatype mode = Normal | InClass bool "classItem list"

fun tokenize :: "mode \<Rightarrow> string \<Rightarrow> tok list" where
  "tokenize Normal [] = []"
| "tokenize Normal (c # p) =
     (if c = CHR ''*'' then Star # tokenize Normal p
      else if c = CHR ''?'' then AnyChar # tokenize Normal p
      else if c = CHR ''['' then
        (case p of
           [] \<Rightarrow> tokenize (InClass False []) p
         | d # p' \<Rightarrow> if d = CHR ''^'' then tokenize (InClass True []) p'
                     else tokenize (InClass False []) p)
      else if c = CHR 0x5C then
        (case p of [] \<Rightarrow> [Lit c] | d # p' \<Rightarrow> Lit d # tokenize Normal p')
      else Lit c # tokenize Normal p)"
| "tokenize (InClass neg acc) [] = [Class neg (rev acc)]"
| "tokenize (InClass neg acc) (c # p) =
     (case p of
        [] \<Rightarrow> if c = CHR '']'' then Class neg (rev acc) # tokenize Normal p
              else tokenize (InClass neg (Single c # acc)) p
      | d # p' \<Rightarrow>
          if c = CHR 0x5C then tokenize (InClass neg (Single d # acc)) p'
          else if c = CHR '']'' then Class neg (rev acc) # tokenize Normal p
          else (case p' of
                  [] \<Rightarrow> tokenize (InClass neg (Single c # acc)) p
                | e # p'' \<Rightarrow> if d = CHR ''-'' then tokenize (InClass neg (Range c e # acc)) p''
                             else tokenize (InClass neg (Single c # acc)) p))"

fun in_item :: "char \<Rightarrow> classItem \<Rightarrow> bool" where
  "in_item c (Single d) = (c = d)"
| "in_item c (Range a b) =
     (let lo = min (of_char a :: nat) (of_char b); hi = max (of_char a :: nat) (of_char b)
      in lo \<le> of_char c \<and> of_char c \<le> hi)"

fun match :: "tok list \<Rightarrow> string \<Rightarrow> bool" where
  "match [] s = (s = [])"
| "match (Star # ts) [] = match ts []"
| "match (Star # ts) (d # s) = (match ts (d # s) \<or> match (Star # ts) s)"
| "match (AnyChar # ts) [] = False"
| "match (AnyChar # ts) (d # s) = match ts s"
| "match (Lit c # ts) [] = False"
| "match (Lit c # ts) (d # s) = (c = d \<and> match ts s)"
| "match (Class neg its # ts) [] = False"
| "match (Class neg its # ts) (d # s) = ((list_ex (in_item d) its \<noteq> neg) \<and> match ts s)"

definition glob :: "string \<Rightarrow> string \<Rightarrow> bool" where
  "glob pattern key = match (tokenize Normal pattern) key"

type_synonym entry = "string \<times> jsval \<times> nat option"

record redisClient =
  entries :: "entry list"
  reachable :: bool

definition live :: "nat \<Rightarrow> entry \<Rightarrow> bool" where
  "live now e = (case snd (snd e) of None \<Rightarrow> True | Some t \<Rightarrow> now < t)"

definition redis_get :: "redisClient \<Rightarrow> string \<Rightarrow> nat \<Rightarrow> error + jsval" where
  "redis_get c key now =
     (if \<not> reachable c then Inl RedisError
      else Inr (case find (\<lambda>e. fst e = key \<and> live now e) (entries c) of
                  None \<Rightarrow> JNull
                | Some e \<Rightarrow> fst (snd e)))"

definition redis_setex :: "redisClient \<Rightarrow> string \<Rightarrow> nat \<Rightarrow> jsval \<Rightarrow> nat \<Rightarrow> error + redisClient" where
  "redis_setex c key ttl v now =
     (if \<not> reachable c then Inl RedisError
      else Inr (c\<lparr>entries := (key, v, Some (now + ttl * 1000)) # filter (\<lambda>e. fst e \<noteq> key) (entries c)\<rparr>))"

definition redis_set :: "redisClient \<Rightarrow> string \<Rightarrow> jsval \<Rightarrow> error + redisClient" where
  "redis_set c key v =
     (if \<not> reachable c then Inl RedisError
      else Inr (c\<lparr>entries := (key, v, None) # filter (\<lambda>e. fst e \<noteq> key) (entries c)\<rparr>))"

definition redis_del :: "redisClient \<Rightarrow> string list \<Rightarrow> error + redisClient" where
  "redis_del c ks =
     (if \<not> reachable c then Inl RedisError
      else Inr (c\<lparr>entries := filter (\<lambda>e. fst e \<notin> set ks) (entries c)\<rparr>))"

definition redis_keys :: "redisClient \<Rightarrow> string \<Rightarrow> nat \<Rightarrow> error + string list" where
  "redis_keys c pattern now =
     (if \<not> reachable c then Inl RedisError
      else Inr (map fst (filter (\<lambda>e. live now e \<and> glob pattern (fst e)) (entries c))))"

section \<open>The cache layer (\<^verbatim>\<open>lib/cache.ts\<close>)\<close>

text \<open>
  \<^verbatim>\<open>getRedis()\<close> yields \<^verbatim>\<open>null\<close> when the credentials are missing or malformed, and the
  client otherwise; the state of the cache layer is that result, \<open>None\<close> for \<^verbatim>\<open>null\<close>.
  Every operation takes the time \<open>now\<close> (milliseconds) at which it reaches the store; a call
  of a function of this file happens at one instant. \<open>ttl\<close> is a natural number, and the
  default values of parameters are left out: every caller passes them.
  Logging is not modelled.
\<close>

type_synonym redis = "redisClient option"

definition cache_get :: "redis \<Rightarrow> string \<Rightarrow> nat \<Rightarrow> jsval" where
  "cache_get r key now =
     (case r of
        None \<Rightarrow> JNull
      | Some c \<Rightarrow> (case redis_get c key now of Inl e \<Rightarrow> JNull | Inr v \<Rightarrow> v))"

definition cache_set :: "redis \<Rightarrow> string \<Rightarrow> jsval \<Rightarrow> nat option \<Rightarrow> nat \<Rightarrow> redis" where
  "cache_set r key v ttl now =
     (case r of
        None \<Rightarrow> r
      | Some c \<Rightarrow>
          (case (case ttl of
                   None \<Rightarrow> redis_set c key v
                 | Some t \<Rightarrow> if t \<noteq> 0 then redis_setex c key t v now else redis_set c key v) of
             Inl e \<Rightarrow> r
           | Inr c' \<Rightarrow> Some c'))"

definition cache_del :: "redis \<Rightarrow> string \<Rightarrow> redis" where
  "cache_del r key =
     (case r of
        None \<Rightarrow> r
      | Some c \<Rightarrow> (case redis_del c [key] of Inl e \<Rightarrow> r | Inr c' \<Rightarrow> Some c'))"

definition cache_invalidatePattern :: "redis \<Rightarrow> string \<Rightarrow> nat \<Rightarrow> redis" where
  "cache_invalidatePattern r pattern now =
     (case r of
        None \<Rightarrow> r
      | Some c \<Rightarrow>
          (case redis_keys c pattern now of
             Inl e \<Rightarrow> r
           | Inr ks \<Rightarrow>
               if length ks > 0
               then (case redis_del c ks of Inl e \<Rightarrow> r | Inr c' \<Rightarrow> Some c')
               else r))"

definition CACHE_KEYS_dashboard_activities :: "jsnum \<Rightarrow> jsnum \<Rightarrow> string" where
  "CACHE_KEYS_dashboard_activities off lim =
     ''dashboard:activities:'' @ show_num off @ '':'' @ show_num lim"

definition CACHE_KEYS_dashboard_stats :: string where
  "CACHE_KEYS_dashboard_stats = ''dashboard:stats''"

definition CACHE_KEYS_dashboard_quotes :: "jsnum \<Rightarrow> jsnum \<Rightarrow> string" where
  "CACHE_KEYS_dashboard_quotes off lim =
     ''dashboard:quotes:'' @ show_num off @ '':'' @ show_num lim"

definition CACHE_KEYS_dashboard_users :: "jsnum \<Rightarrow> jsnum \<Rightarrow> string" where
  "CACHE_KEYS_dashboard_users off lim =
     ''dashboard:users:'' @ show_num off @ '':'' @ show_num lim"

definition CACHE_KEYS_dashboard_newsletter :: "jsnum \<Rightarrow> jsnum \<Rightarrow> string" where
  "CACHE_KEYS_dashboard_newsletter off lim =
     ''dashboard:newsletter:'' @ show_num off @ '':'' @ show_num lim"

definition CACHE_KEYS_dashboard_forms :: "jsnum \<Rightarrow> jsnum \<Rightarrow> string" where
  "CACHE_KEYS_dashboard_forms off lim =
     ''dashboard:forms:'' @ show_num off @ '':'' @ show_num lim"

definition CACHE_TTL_dashboard_realtime :: nat where
  "CACHE_TTL_dashboard_realtime = 10"

definition CACHE_TTL_dashboard_stats :: nat where
  "CACHE_TTL_dashboard_stats = 30"

text \<open>
  \<^verbatim>\<open>getCachedQuery(key, fetcher, ttl)\<close>. The fetcher is a thunk whose invocation may reject;
  a rejection propagates (the function has no \<^verbatim>\<open>catch\<close>). The result is the outcome, the
  store afterwards, and the number of times the fetcher was invoked by this call. The comment
  of the function says that it falls back to an in-memory cache when Redis is unavailable;
  the code holds no such cache, and without a client every call invokes the fetcher.
\<close>

definition getCachedQuery ::
  "redis \<Rightarrow> string \<Rightarrow> (unit \<Rightarrow> error + jsval) \<Rightarrow> nat \<Rightarrow> nat \<Rightarrow> (error + jsval) \<times> redis \<times> nat" where
  "getCachedQuery r key fetcher ttl now =
     (let cached = cache_get r key now in
      if truthy cached then (Inr cached, r, 0)
      else (case fetcher () of
              Inl e \<Rightarrow> (Inl e, r, 1)
            | Inr d \<Rightarrow> (Inr d, cache_set r key d (Some ttl) now, 1)))"

definition invalidateDashboardCache :: "redis \<Rightarrow> string option \<Rightarrow> nat \<Rightarrow> redis" where
  "invalidateDashboardCache r pattern now =
     (case pattern of
        None \<Rightarrow> cache_invalidatePattern r ''dashboard:*'' now
      | Some p \<Rightarrow> if p = [] then cache_invalidatePattern r ''dashboard:*'' now
                  else cache_invalidatePattern r p now)"

section \<open>The database\<close>

text \<open>
  The database is external. A snapshot holds the five tables and, for every kind of query,
  how the server behaves when the query is issued: after how many milliseconds it settles
  (\<open>delay\<close>) and whether it then throws (\<open>throws\<close>). \<^verbatim>\<open>ORDER BY ... DESC\<close> is the stable
  descending sort of the table; the server leaves the order of equal keys open, the model
  fixes it to the order of the table.
\<close>

datatype table = User | Quote | FormSubmission | NewsletterSubscriber | AnalyticsEvent

datatype qkind = FindMany | Count | Raw | Update

record db =
  users :: "userRow list"
  quotes :: "quoteRow list"
  formSubmissions :: "formRow list"
  newsletterSubscribers :: "subscriberRow list"
  analyticsEvents :: "analyticsRow list"
  delay :: "table \<Rightarrow> qkind \<Rightarrow> nat"
  throws :: "table \<Rightarrow> qkind \<Rightarrow> bool"

text \<open>A promise is the time after which it settles and what it settles to.\<close>

type_synonym 'a promise = "nat \<times> (error + 'a)"

definition query :: "db \<Rightarrow> table \<Rightarrow> qkind \<Rightarrow> 'a \<Rightarrow> 'a promise" where
  "query d t k result = (delay d t k, if throws d t k then Inl QueryFailed else Inr result)"

text \<open>
  \<^verbatim>\<open>findMany\<close> with \<^verbatim>\<open>take\<close> and \<^verbatim>\<open>skip\<close>: Prisma accepts integers only, and a
  call with \<^verbatim>\<open>NaN\<close> is rejected at once, before a query is sent. \<open>rows s n\<close> are the rows
  that the server returns for \<^verbatim>\<open>skip: s, take: n\<close>.
\<close>

definition findMany :: "db \<Rightarrow> table \<Rightarrow> jsnum \<Rightarrow> jsnum \<Rightarrow> (nat \<Rightarrow> nat \<Rightarrow> 'a) \<Rightarrow> 'a promise" where
  "findMany d t takeArg skipArg rows =
     (case takeArg of
        NaN \<Rightarrow> (0, Inl InvalidArgument)
      | Num n \<Rightarrow> (case skipArg of
                    NaN \<Rightarrow> (0, Inl InvalidArgument)
                  | Num s \<Rightarrow> query d t FindMany (rows s n)))"

text \<open>
  \<^verbatim>\<open>withTimeout\<close> races the promise against a timer that rejects after \<open>timeoutMs\<close>.
\<close>

definition withTimeout :: "'a promise \<Rightarrow> nat \<Rightarrow> error + 'a" where
  "withTimeout p timeoutMs = (if fst p < timeoutMs then snd p else Inl (QueryTimeout timeoutMs))"

text \<open>
  \<^verbatim>\<open>Promise.all\<close> on promises of one type: it rejects with the earliest rejection, and
  otherwise resolves, once the slowest has resolved, to the list of values.
\<close>

definition promise_all :: "'a promise list \<Rightarrow> 'a list promise" where
  "promise_all ps =
     (case filter (\<lambda>p. isl (snd p)) ps of
        [] \<Rightarrow> (fold max (map fst ps) 0, Inr (map (\<lambda>p. projr (snd p)) ps))
      | x # xs \<Rightarrow>
          (let e = fold (\<lambda>p best. if fst p < fst best then p else best) xs x
           in (fst e, Inl (projl (snd e)))))"

section \<open>The activity aggregator\<close>

text \<open>
  \<^verbatim>\<open>Array.prototype.sort(cmp)\<close> is stable; it is realised here as insertion sort, which
  places an element before the first one that \<open>cmp\<close> does not order before it.
\<close>

primrec insertBy :: "('a \<Rightarrow> 'a \<Rightarrow> int) \<Rightarrow> 'a \<Rightarrow> 'a list \<Rightarrow> 'a list" where
  "insertBy cmp x [] = [x]"
| "insertBy cmp x (y # ys) = (if cmp x y \<le> 0 then x # y # ys else y # insertBy cmp x ys)"

definition js_sort :: "('a \<Rightarrow> 'a \<Rightarrow> int) \<Rightarrow> 'a list \<Rightarrow> 'a list" where
  "js_sort cmp xs = foldr (insertBy cmp) xs []"

definition mapUser :: "userRow \<Rightarrow> ActivityEvent" where
  "mapUser user =
     \<lparr>ev_id = ''user_'' @ show_nat (u_id user),
      ev_type = user_registration,
      timestamp = u_createdAt user,
      ev_actor = \<lparr>actor_id = Some (show_nat (u_id user)),
                  actor_email = u_email user,
                  actor_name = Some (trim (or_str (u_firstName user) [] @ '' '' @ or_str (u_lastName user) []))\<rparr>,
      ev_data = \<lparr>reference = None, amount = None, items = None, formType = None, data_status = None,
                 message = Some (''New registration from '' @ or_str (u_firstName user) ''User'')\<rparr>,
      ev_status = (if u_emailVerified user \<noteq> None then ''verified'' else ''pending_verification'')\<rparr>"

definition mapQuote :: "quoteActivityRow \<Rightarrow> ActivityEvent" where
  "mapQuote quote =
     \<lparr>ev_id = qa_id quote,
      ev_type = quote_request,
      timestamp = qa_createdAt quote,
      ev_actor = \<lparr>actor_id = None,
                  actor_email = or_str (qa_email quote) ''unknown'',
                  actor_name = Some (case qa_firstName quote of
                                       None \<Rightarrow> ''Unknown''
                                     | Some fn \<Rightarrow> if fn = [] then ''Unknown''
                                                  else trim (fn @ '' '' @ or_str (qa_lastName quote) []))\<rparr>,
      ev_data = \<lparr>reference = Some (qa_reference quote), amount = Some (qa_total quote), items = None,
                 formType = None, data_status = Some (qa_status quote), message = None\<rparr>,
      ev_status = qa_status quote\<rparr>"

definition userOf :: "db \<Rightarrow> quoteRow \<Rightarrow> userRow option" where
  "userOf d q = (case q_userId q of None \<Rightarrow> None | Some uid \<Rightarrow> find (\<lambda>u. u_id u = uid) (users d))"

definition joinUser :: "db \<Rightarrow> quoteRow \<Rightarrow> quoteActivityRow" where
  "joinUser d q =
     \<lparr>qa_id = q_id q, qa_reference = q_reference q, qa_status = q_status q, qa_total = q_total q,
      qa_createdAt = q_createdAt q, qa_userId = q_userId q,
      qa_email = map_option u_email (userOf d q),
      qa_firstName = Option.bind (userOf d q) u_firstName,
      qa_lastName = Option.bind (userOf d q) u_lastName\<rparr>"

text \<open>The rows that the two row queries of the aggregator return.\<close>

definition userActivitiesQuery :: "db \<Rightarrow> nat \<Rightarrow> nat \<Rightarrow> userRow list" where
  "userActivitiesQuery d off lim = take lim (drop off (sort_key (\<lambda>u. - u_createdAt u) (users d)))"

definition businessActivitiesQuery :: "db \<Rightarrow> nat \<Rightarrow> quoteActivityRow list" where
  "businessActivitiesQuery d lim = map (joinUser d) (take lim (sort_key (\<lambda>q. - q_createdAt q) (quotes d)))"

definition totalCountQuery :: "db \<Rightarrow> nat list promise" where
  "totalCountQuery d =
     promise_all
       [query d User Count (length (users d)),
        query d Quote Count (length (quotes d)),
        query d FormSubmission Count (length (formSubmissions d)),
        query d NewsletterSubscriber Count (length (newsletterSubscribers d)),
        query d AnalyticsEvent Count
          (length (filter (\<lambda>a. a_eventType a = ''checkout_completed'') (analyticsEvents d)))]"

text \<open>
  The raw query with \<^verbatim>\<open>LIMIT ${limit}\<close>. For \<^verbatim>\<open>NaN\<close> it is taken to be rejected; in
  the aggregator that has no effect, since the user query of the same call is rejected by
  then.
\<close>

definition businessActivitiesRaw :: "db \<Rightarrow> jsnum \<Rightarrow> quoteActivityRow list promise" where
  "businessActivitiesRaw d lim =
     (case lim of
        NaN \<Rightarrow> (0, Inl InvalidArgument)
      | Num n \<Rightarrow> query d Quote Raw (businessActivitiesQuery d n))"

definition sentinel :: "jsnum \<Rightarrow> jsnum \<Rightarrow> PaginatedResult" where
  "sentinel off lim = \<lparr>data = [], total' = 0, offset = off, limit = lim, hasMore = False\<rparr>"

text \<open>
  The body of the \<^verbatim>\<open>try\<close> block of \<^verbatim>\<open>getRecentActivitiesOptimized\<close>: the outer
  \<^verbatim>\<open>Promise.all\<close> rejects as soon as one of its three members rejects (which of several
  rejections it reports is only logged). \<open>totalActivities\<close> is the sum of the five counts.
\<close>

definition recentActivitiesTry :: "db \<Rightarrow> jsnum \<Rightarrow> jsnum \<Rightarrow> error + PaginatedResult" where
  "recentActivitiesTry d off lim =
     (case withTimeout (findMany d User lim off (userActivitiesQuery d)) 10000 of
        Inl e \<Rightarrow> Inl e
      | Inr userActivities \<Rightarrow>
     (case withTimeout (businessActivitiesRaw d lim) 10000 of
        Inl e \<Rightarrow> Inl e
      | Inr businessActivities \<Rightarrow>
     (case withTimeout (totalCountQuery d) 10000 of
        Inl e \<Rightarrow> Inl e
      | Inr totalCount \<Rightarrow>
          (let activities = map mapUser userActivities @ map mapQuote businessActivities;
               sorted = slice0 lim (js_sort (\<lambda>a b. timestamp b - timestamp a) activities);
               totalActivities = sum_list totalCount
           in Inr \<lparr>data = map ActivityItem sorted, total' = totalActivities, offset = off,
                   limit = lim, hasMore = js_less (js_add off lim) (Num totalActivities)\<rparr>))))"

text \<open>The \<^verbatim>\<open>catch\<close> shared by the five fetchers: any error becomes the empty page.\<close>

definition catchPage :: "error + PaginatedResult \<Rightarrow> jsnum \<Rightarrow> jsnum \<Rightarrow> error + jsval" where
  "catchPage body off lim =
     (case body of Inl e \<Rightarrow> Inr (JPage (sentinel off lim)) | Inr p \<Rightarrow> Inr (JPage p))"

definition getRecentActivitiesOptimized ::
  "redis \<Rightarrow> db \<Rightarrow> jsnum \<Rightarrow> jsnum \<Rightarrow> nat \<Rightarrow> (error + jsval) \<times> redis \<times> nat" where
  "getRecentActivitiesOptimized r d off lim now =
     getCachedQuery r (CACHE_KEYS_dashboard_activities off lim)
       (\<lambda>_. catchPage (recentActivitiesTry d off lim) off lim)
       CACHE_TTL_dashboard_realtime now"

section \<open>The per-entity fetchers\<close>

text \<open>
  A pair of a page query and a count query under \<^verbatim>\<open>Promise.all\<close>, each with its own
  ten-second timeout.
\<close>

definition pageTry ::
  "item list promise \<Rightarrow> nat promise \<Rightarrow> jsnum \<Rightarrow> jsnum \<Rightarrow> error + PaginatedResult" where
  "pageTry rowsP countP off lim =
     (case withTimeout rowsP 10000 of
        Inl e \<Rightarrow> Inl e
      | Inr rows \<Rightarrow>
     (case withTimeout countP 10000 of
        Inl e \<Rightarrow> Inl e
      | Inr cnt \<Rightarrow>
          Inr \<lparr>data = rows, total' = cnt, offset = off, limit = lim,
               hasMore = js_less (js_add off lim) (Num cnt)\<rparr>))"

text \<open>\<^verbatim>\<open>where: status ? { status } : undefined\<close>: an absent or empty status does not filter.\<close>

definition quoteWhere :: "string option \<Rightarrow> quoteRow \<Rightarrow> bool" where
  "quoteWhere status q =
     (case status of None \<Rightarrow> True | Some s \<Rightarrow> if s = [] then True else q_status q = s)"

definition quotesTry :: "db \<Rightarrow> jsnum \<Rightarrow> jsnum \<Rightarrow> string option \<Rightarrow> error + PaginatedResult" where
  "quotesTry d off lim status =
     pageTry
       (findMany d Quote lim off
          (\<lambda>s n. map (\<lambda>q. QuoteItem q (userOf d q))
             (take n (drop s (sort_key (\<lambda>q. - q_createdAt q) (filter (quoteWhere status) (quotes d)))))))
       (query d Quote Count (length (filter (quoteWhere status) (quotes d))))
       off lim"

definition getQuotesOptimized ::
  "redis \<Rightarrow> db \<Rightarrow> jsnum \<Rightarrow> jsnum \<Rightarrow> string option \<Rightarrow> nat \<Rightarrow> (error + jsval) \<times> redis \<times> nat" where
  "getQuotesOptimized r d off lim status now =
     getCachedQuery r (CACHE_KEYS_dashboard_quotes off lim)
       (\<lambda>_. catchPage (quotesTry d off lim status) off lim)
       CACHE_TTL_dashboard_realtime now"

definition newUsersTry :: "db \<Rightarrow> jsnum \<Rightarrow> jsnum \<Rightarrow> error + PaginatedResult" where
  "newUsersTry d off lim =
     pageTry
       (findMany d User lim off
          (\<lambda>s n. map UserItem
             (take n (drop s (sort_key (\<lambda>u. - u_createdAt u)
                (filter (\<lambda>u. u_role u = ''customer'') (users d)))))))
       (query d User Count (length (filter (\<lambda>u. u_role u = ''customer'') (users d))))
       off lim"

definition getNewUsersOptimized ::
  "redis \<Rightarrow> db \<Rightarrow> jsnum \<Rightarrow> jsnum \<Rightarrow> nat \<Rightarrow> (error + jsval) \<times> redis \<times> nat" where
  "getNewUsersOptimized r d off lim now =
     getCachedQuery r (CACHE_KEYS_dashboard_users off lim)
       (\<lambda>_. catchPage (newUsersTry d off lim) off lim)
       CACHE_TTL_dashboard_realtime now"

definition newsletterTry :: "db \<Rightarrow> jsnum \<Rightarrow> jsnum \<Rightarrow> error + PaginatedResult" where
  "newsletterTry d off lim =
     pageTry
       (findMany d NewsletterSubscriber lim off
          (\<lambda>s n. map SubscriberItem
             (take n (drop s (sort_key (\<lambda>n. - n_subscribedAt n) (newsletterSubscribers d))))))
       (query d NewsletterSubscriber Count (length (newsletterSubscribers d)))
       off lim"

definition getNewsletterSubscribersOptimized ::
  "redis \<Rightarrow> db \<Rightarrow> jsnum \<Rightarrow> jsnum \<Rightarrow> nat \<Rightarrow> (error + jsval) \<times> redis \<times> nat" where
  "getNewsletterSubscribersOptimized r d off lim now =
     getCachedQuery r (CACHE_KEYS_dashboard_newsletter off lim)
       (\<lambda>_. catchPage (newsletterTry d off lim) off lim)
       CACHE_TTL_dashboard_realtime now"

definition formsTry :: "db \<Rightarrow> jsnum \<Rightarrow> jsnum \<Rightarrow> error + PaginatedResult" where
  "formsTry d off lim =
     pageTry
       (findMany d FormSubmission lim off
          (\<lambda>s n. map FormItem
             (take n (drop s (sort_key (\<lambda>f. - f_submittedAt f) (formSubmissions d))))))
       (query d FormSubmission Count (length (formSubmissions d)))
       off lim"

definition getFormSubmissionsOptimized ::
  "redis \<Rightarrow> db \<Rightarrow> jsnum \<Rightarrow> jsnum \<Rightarrow> nat \<Rightarrow> (error + jsval) \<times> redis \<times> nat" where
  "getFormSubmissionsOptimized r d off lim now =
     getCachedQuery r (CACHE_KEYS_dashboard_forms off lim)
       (\<lambda>_. catchPage (formsTry d off lim) off lim)
       CACHE_TTL_dashboard_realtime now"

section \<open>Statistics, the mutation and the read endpoint\<close>

text \<open>
  \<^verbatim>\<open>getActivityStatsOptimized\<close>: seven counts under one \<^verbatim>\<open>Promise.all\<close> and one timeout.
  "This week" starts seven days (604800000 ms) before \<open>now\<close>; the code steps back seven
  calendar days in local time, which differs by an hour across a change of daylight saving.
\<close>

definition statsTry :: "db \<Rightarrow> nat \<Rightarrow> error + dashboardStats" where
  "statsTry d now =
     (case withTimeout
        (promise_all
          [query d User Count (length (users d)),
           query d User Count (length (filter (\<lambda>u. int now - 604800000 \<le> u_createdAt u) (users d))),
           query d Quote Count (length (quotes d)),
           query d Quote Count (length (filter (\<lambda>q. q_status q \<in> set [''draft'', ''pending'']) (quotes d))),
           query d NewsletterSubscriber Count
             (length (filter (\<lambda>n. n_status n = ''active'') (newsletterSubscribers d))),
           query d FormSubmission Count (length (formSubmissions d)),
           query d AnalyticsEvent Count
             (length (filter (\<lambda>a. a_eventType a = ''checkout_completed'') (analyticsEvents d)))])
        10000 of
        Inl e \<Rightarrow> Inl e
      | Inr cs \<Rightarrow>
          (case cs of
             [c1, c2, c3, c4, c5, c6, c7] \<Rightarrow>
               Inr \<lparr>totalUsers = c1, newUsersThisWeek = c2, totalQuotes = c3, pendingQuotes = c4,
                    totalNewsletterSubscribers = c5, totalFormSubmissions = c6, totalCheckouts = c7\<rparr>
           | _ \<Rightarrow> Inl QueryFailed))"

definition zeroStats :: dashboardStats where
  "zeroStats = \<lparr>totalUsers = 0, newUsersThisWeek = 0, totalQuotes = 0, pendingQuotes = 0,
                 totalNewsletterSubscribers = 0, totalFormSubmissions = 0, totalCheckouts = 0\<rparr>"

definition getActivityStatsOptimized ::
  "redis \<Rightarrow> db \<Rightarrow> nat \<Rightarrow> (error + jsval) \<times> redis \<times> nat" where
  "getActivityStatsOptimized r d now =
     getCachedQuery r CACHE_KEYS_dashboard_stats
       (\<lambda>_. case statsTry d now of Inl e \<Rightarrow> Inr (JStats zeroStats) | Inr s \<Rightarrow> Inr (JStats s))
       CACHE_TTL_dashboard_stats now"

text \<open>
  \<^verbatim>\<open>prisma.formSubmission.update\<close> rejects when no row has the identifier. The timeout of
  the caller does not cancel the query, so the row is written whenever the server answers,
  also after the ten seconds.
\<close>

definition formUpdate :: "db \<Rightarrow> string \<Rightarrow> string \<Rightarrow> (formRow \<times> db) promise" where
  "formUpdate d ident status =
     (delay d FormSubmission Update,
      if throws d FormSubmission Update then Inl QueryFailed
      else (case find (\<lambda>f. f_id f = ident) (formSubmissions d) of
              None \<Rightarrow> Inl RecordNotFound
            | Some f \<Rightarrow>
                Inr (f\<lparr>f_status := status\<rparr>,
                     d\<lparr>formSubmissions :=
                         map (\<lambda>g. if f_id g = ident then g\<lparr>f_status := status\<rparr> else g)
                           (formSubmissions d)\<rparr>)))"

definition updateFormSubmissionStatus ::
  "redis \<Rightarrow> db \<Rightarrow> string \<Rightarrow> string \<Rightarrow> nat \<Rightarrow> (error + formRow) \<times> redis \<times> db" where
  "updateFormSubmissionStatus r d ident status now =
     (let p = formUpdate d ident status;
          d' = (case snd p of Inl e \<Rightarrow> d | Inr fd \<Rightarrow> snd fd)
      in case withTimeout p 10000 of
           Inl e \<Rightarrow> (Inl e, r, d')
         | Inr fd \<Rightarrow> (Inr (fst fd), invalidateDashboardCache r (Some ''dashboard:forms'') now, d'))"

definition invalidateAllDashboardCache :: "redis \<Rightarrow> nat \<Rightarrow> redis" where
  "invalidateAllDashboardCache r now = invalidateDashboardCache r (Some ''dashboard:'') now"

text \<open>
  The handler \<^verbatim>\<open>GET /api/admin/dashboard-data\<close>. Of the request it reads the hostname of
  the URL, the \<^verbatim>\<open>authorization\<close> and \<^verbatim>\<open>if-none-match\<close> headers as
  \<^verbatim>\<open>request.headers.get\<close> returns them (without white space at either end), and the two
  query parameters. \<open>pageParam\<close> and \<open>limitParam\<close> hold what \<^verbatim>\<open>parseInt\<close> returns for
  the parameter, an integer or \<^verbatim>\<open>NaN\<close> (\<open>None\<close> for an absent or empty parameter, which
  defaults to 0 and 20); integers are exact, as they are below \<open>2^53\<close>.
  \<^verbatim>\<open>Math.max\<close> and \<^verbatim>\<open>Math.min\<close> return \<^verbatim>\<open>NaN\<close> when an argument is \<^verbatim>\<open>NaN\<close>.
  The six fetchers run under \<^verbatim>\<open>Promise.allSettled\<close>; they use six different keys and
  are run here in the order of the array. The body keeps the six results as they are (the
  handler only regroups their fields). The fetchers never reject, so the handler's own
  \<^verbatim>\<open>catch\<close> (status 500) has no branch here. The MD5 digest and the ISO rendering of the
  time are parameters, \<open>elapsed\<close> is the handler's running time. The last component of the
  result is the number of fetcher bodies that ran, each of which queries the database.
\<close>

datatype parsed = Parsed int | ParsedNaN

record request =
  hostname :: string
  authorization :: "string option"
  ifNoneMatch :: "string option"
  pageParam :: "parsed option"
  limitParam :: "parsed option"

record responseData =
  rd_stats :: jsval
  rd_activities :: jsval
  rd_quotes :: jsval
  rd_newUsers :: jsval
  rd_newsletter :: jsval
  rd_forms :: jsval
  rd_timestamp :: string
  rd_responseTime :: string

datatype response =
  Unauthorized401 | NotModified304 string | Ok200 responseData string

text \<open>\<^verbatim>\<open>Math.max(0, parseInt(page || '0'))\<close> and \<^verbatim>\<open>Math.min(100, Math.max(1, parseInt(limit || '20')))\<close>.\<close>

definition pageOf :: "parsed option \<Rightarrow> jsnum" where
  "pageOf p =
     (case (case p of None \<Rightarrow> Parsed 0 | Some v \<Rightarrow> v) of
        ParsedNaN \<Rightarrow> NaN
      | Parsed n \<Rightarrow> Num (nat (max 0 n)))"

definition limitOf :: "parsed option \<Rightarrow> jsnum" where
  "limitOf p =
     (case (case p of None \<Rightarrow> Parsed 20 | Some v \<Rightarrow> v) of
        ParsedNaN \<Rightarrow> NaN
      | Parsed n \<Rightarrow> Num (nat (min 100 (max 1 n))))"

definition rejectsUnauthenticated :: "request \<Rightarrow> bool" where
  "rejectsUnauthenticated req =
     ((case authorization req of
         None \<Rightarrow> True
       | Some authHeader \<Rightarrow> authHeader = [] \<or> \<not> startsWith authHeader ''Bearer '')
      \<and> \<not> includes_str (hostname req) ''localhost''
      \<and> \<not> includes_str (hostname req) ''127.0.0.1'')"

definition settledOr :: "error + jsval \<Rightarrow> jsval \<Rightarrow> jsval" where
  "settledOr res fallback = (case res of Inl e \<Rightarrow> fallback | Inr v \<Rightarrow> v)"

text \<open>
  The \<^verbatim>\<open>Promise.allSettled\<close> block with the extraction of the six results: a rejected
  fetcher is replaced by its fallback. With the results come the store and the number of
  fetcher bodies that ran.
\<close>

definition fetchDashboard ::
  "redis \<Rightarrow> db \<Rightarrow> jsnum \<Rightarrow> jsnum \<Rightarrow> nat
     \<Rightarrow> (jsval \<times> jsval \<times> jsval \<times> jsval \<times> jsval \<times> jsval) \<times> redis \<times> nat" where
  "fetchDashboard r d off lim now =
     (case getRecentActivitiesOptimized r d off lim now of (activitiesResult, r1, n1) \<Rightarrow>
     (case getActivityStatsOptimized r1 d now of (stats, r2, n2) \<Rightarrow>
     (case getQuotesOptimized r2 d off lim None now of (quotesResult, r3, n3) \<Rightarrow>
     (case getNewUsersOptimized r3 d off lim now of (newUsersResult, r4, n4) \<Rightarrow>
     (case getNewsletterSubscribersOptimized r4 d off lim now of (newsletterResult, r5, n5) \<Rightarrow>
     (case getFormSubmissionsOptimized r5 d off lim now of (formsResult, r6, n6) \<Rightarrow>
       ((settledOr activitiesResult (JPage (sentinel off lim)),
         settledOr stats (JStats zeroStats),
         settledOr quotesResult (JPage (sentinel off lim)),
         settledOr newUsersResult (JPage (sentinel off lim)),
         settledOr newsletterResult (JPage (sentinel off lim)),
         settledOr formsResult (JPage (sentinel off lim))),
        r6, n1 + n2 + n3 + n4 + n5 + n6)))))))"

definition GET ::
  "(responseData \<Rightarrow> string) \<Rightarrow> (nat \<Rightarrow> string) \<Rightarrow> nat \<Rightarrow> redis \<Rightarrow> db \<Rightarrow> request \<Rightarrow> nat
     \<Rightarrow> response \<times> redis \<times> nat" where
  "GET md5 toISOString elapsed r d req now =
     (let page = pageOf (pageParam req);
          lim = limitOf (limitParam req);
          off = js_mul page lim
      in if rejectsUnauthenticated req then (Unauthorized401, r, 0)
         else
           (case fetchDashboard r d off lim now of
              ((activities, dashboardStats, quotesPage, newUsers, newsletter, forms), r', calls) \<Rightarrow>
                (let responseData =
                       \<lparr>rd_stats = dashboardStats,
                        rd_activities = activities,
                        rd_quotes = quotesPage,
                        rd_newUsers = newUsers,
                        rd_newsletter = newsletter,
                        rd_forms = forms,
                        rd_timestamp = toISOString now,
                        rd_responseTime = show_nat elapsed @ ''ms''\<rparr>;
                     etagHash = md5 responseData
                 in if ifNoneMatch req = Some etagHash then (NotModified304 etagHash, r', calls)
                    else (Ok200 responseData etagHash, r', calls))))"

section \<open>Predicates and inputs of the properties\<close>

text \<open>
  The invariant of a \<^verbatim>\<open>PaginatedResult\<close>, read off its own fields with the arithmetic
  and the comparisons of JavaScript.
\<close>

definition paginated_ok :: "PaginatedResult \<Rightarrow> bool" where
  "paginated_ok p =
     (hasMore p = js_less (js_add (offset p) (limit p)) (Num (total' p))
      \<and> js_le (Num (length (data p))) (limit p))"

text \<open>
  A query fails for its caller when the server throws or does not answer within the ten
  seconds of \<^verbatim>\<open>withTimeout\<close>.
\<close>

definition fails :: "db \<Rightarrow> table \<times> qkind \<Rightarrow> bool" where
  "fails d q = (throws d (fst q) (snd q) \<or> 10000 \<le> delay d (fst q) (snd q))"

text \<open>
  The five paginated fetchers under one name, with the key each uses, the body of its
  \<^verbatim>\<open>try\<close> block and the queries that body issues.
\<close>

datatype fetcher =
  RecentActivities | Quotes "string option" | NewUsers | NewsletterSubscribers | FormSubmissions

fun fetcherCall ::
  "fetcher \<Rightarrow> redis \<Rightarrow> db \<Rightarrow> jsnum \<Rightarrow> jsnum \<Rightarrow> nat \<Rightarrow> (error + jsval) \<times> redis \<times> nat" where
  "fetcherCall RecentActivities r d off lim now = getRecentActivitiesOptimized r d off lim now"
| "fetcherCall (Quotes status) r d off lim now = getQuotesOptimized r d off lim status now"
| "fetcherCall NewUsers r d off lim now = getNewUsersOptimized r d off lim now"
| "fetcherCall NewsletterSubscribers r d off lim now =
     getNewsletterSubscribersOptimized r d off lim now"
| "fetcherCall FormSubmissions r d off lim now = getFormSubmissionsOptimized r d off lim now"

fun fetcherKey :: "fetcher \<Rightarrow> jsnum \<Rightarrow> jsnum \<Rightarrow> string" where
  "fetcherKey RecentActivities off lim = CACHE_KEYS_dashboard_activities off lim"
| "fetcherKey (Quotes status) off lim = CACHE_KEYS_dashboard_quotes off lim"
| "fetcherKey NewUsers off lim = CACHE_KEYS_dashboard_users off lim"
| "fetcherKey NewsletterSubscribers off lim = CACHE_KEYS_dashboard_newsletter off lim"
| "fetcherKey FormSubmissions off lim = CACHE_KEYS_dashboard_forms off lim"

fun fetcherTry :: "fetcher \<Rightarrow> db \<Rightarrow> jsnum \<Rightarrow> jsnum \<Rightarrow> error + PaginatedResult" where
  "fetcherTry RecentActivities d off lim = recentActivitiesTry d off lim"
| "fetcherTry (Quotes status) d off lim = quotesTry d off lim status"
| "fetcherTry NewUsers d off lim = newUsersTry d off lim"
| "fetcherTry NewsletterSubscribers d off lim = newsletterTry d off lim"
| "fetcherTry FormSubmissions d off lim = formsTry d off lim"

fun fetcherQueries :: "fetcher \<Rightarrow> (table \<times> qkind) list" where
  "fetcherQueries RecentActivities =
     [(User, FindMany), (Quote, Raw), (User, Count), (Quote, Count), (FormSubmission, Count),
      (NewsletterSubscriber, Count), (AnalyticsEvent, Count)]"
| "fetcherQueries (Quotes status) = [(Quote, FindMany), (Quote, Count)]"
| "fetcherQueries NewUsers = [(User, FindMany), (User, Count)]"
| "fetcherQueries NewsletterSubscribers =
     [(NewsletterSubscriber, FindMany), (NewsletterSubscriber, Count)]"
| "fetcherQueries FormSubmissions = [(FormSubmission, FindMany), (FormSubmission, Count)]"

text \<open>
  The store is shared with whoever else writes to it. What the paginated fetchers rely on:
  under a key of the \<^verbatim>\<open>dashboard:\<close> namespace other than \<^verbatim>\<open>dashboard:stats\<close> the store
  holds pages that satisfy the invariant. The empty store does, and the fetchers keep it so.
\<close>

definition entry_ok :: "entry \<Rightarrow> bool" where
  "entry_ok e =
     (startsWith (fst e) ''dashboard:'' \<and> fst e \<noteq> ''dashboard:stats'' \<longrightarrow>
        (case fst (snd e) of JPage p \<Rightarrow> paginated_ok p | _ \<Rightarrow> False))"

definition cache_pages_ok :: "redis \<Rightarrow> bool" where
  "cache_pages_ok r = (case r of None \<Rightarrow> True | Some c \<Rightarrow> list_all entry_ok (entries c))"

text \<open>
  A history of the dashboard in which every fetch is made with a limit that is a number:
  each step is one operation of this file, issued at some time against some snapshot of the
  database, with the server of the store reachable or not. \<open>run\<close> collects what the
  fetchers returned along the way.
\<close>

datatype action =
  Fetch fetcher jsnum nat | Stats | UpdateForm string string | InvalidateAll

fun step :: "redis \<Rightarrow> action \<Rightarrow> db \<Rightarrow> nat \<Rightarrow> (error + jsval) option \<times> redis" where
  "step r (Fetch f off lim) d now =
     (Some (fst (fetcherCall f r d off (Num lim) now)),
      fst (snd (fetcherCall f r d off (Num lim) now)))"
| "step r Stats d now = (None, fst (snd (getActivityStatsOptimized r d now)))"
| "step r (UpdateForm ident status) d now =
     (None, fst (snd (updateFormSubmissionStatus r d ident status now)))"
| "step r InvalidateAll d now = (None, invalidateAllDashboardCache r now)"

fun run :: "redis \<Rightarrow> (action \<times> db \<times> nat \<times> bool) list \<Rightarrow> (error + jsval) list" where
  "run r [] = []"
| "run r ((a, d, now, up) # rest) =
     (case step (map_option (\<lambda>c. c\<lparr>reachable := up\<rparr>) r) a d now of
        (None, r') \<Rightarrow> run r' rest
      | (Some res, r') \<Rightarrow> res # run r' rest)"

text \<open>
  The feed as the specification words it: all events sorted by descending timestamp, equal
  timestamps by ascending identifier (strings compared by code unit, as JavaScript does), then
  the window from \<open>off\<close> to \<open>off + lim\<close>.
\<close>

fun str_less :: "string \<Rightarrow> string \<Rightarrow> bool" where
  "str_less [] [] = False"
| "str_less [] (d # ds) = True"
| "str_less (c # cs) [] = False"
| "str_less (c # cs) (d # ds) = ((of_char c :: nat) < of_char d \<or> (c = d \<and> str_less cs ds))"

definition byTimestampThenId :: "ActivityEvent \<Rightarrow> ActivityEvent \<Rightarrow> int" where
  "byTimestampThenId a b =
     (if timestamp a \<noteq> timestamp b then timestamp b - timestamp a
      else if str_less (ev_id a) (ev_id b) then - 1
      else if ev_id a = ev_id b then 0 else 1)"

definition claimedFeed :: "ActivityEvent list \<Rightarrow> nat \<Rightarrow> nat \<Rightarrow> ActivityEvent list" where
  "claimedFeed evs off lim = take lim (drop off (js_sort byTimestampThenId evs))"

text \<open>
  Inputs of the examples: a fetcher that resolves to a given value; a configured, reachable,
  empty store; a server that answers every query after 5 ms, one whose raw quote query throws
  and one whose form page query takes 15 s; a few rows, snapshots and requests. The quotes
  \<open>quoteTieA\<close> and \<open>quoteTieZ\<close> were created at the same instant as \<open>user1\<close>. Of the
  requests, \<open>localRequest\<close>, \<open>lookalikeRequest\<close> and \<open>anonymousRequest\<close> carry no
  \<^verbatim>\<open>Authorization\<close> header, \<open>bearerRequest\<close> carries a token that nobody issued, and
  \<open>nanLimitRequest\<close> is \<^verbatim>\<open>?limit=abc\<close>, for which \<^verbatim>\<open>parseInt\<close> returns \<^verbatim>\<open>NaN\<close>.
\<close>

definition resolved :: "jsval \<Rightarrow> unit \<Rightarrow> error + jsval" where
  "resolved v u = Inr v"

definition emptyRedis :: redis where
  "emptyRedis = Some \<lparr>entries = [], reachable = True\<rparr>"

definition healthy :: "table \<Rightarrow> qkind \<Rightarrow> nat" where
  "healthy t k = 5"

definition noThrow :: "table \<Rightarrow> qkind \<Rightarrow> bool" where
  "noThrow t k = False"

definition quoteRawThrows :: "table \<Rightarrow> qkind \<Rightarrow> bool" where
  "quoteRawThrows t k = (t = Quote \<and> k = Raw)"

definition slowFormPage :: "table \<Rightarrow> qkind \<Rightarrow> nat" where
  "slowFormPage t k = (if t = FormSubmission \<and> k = FindMany then 15000 else 5)"

definition emptyDb :: db where
  "emptyDb = \<lparr>users = [], quotes = [], formSubmissions = [], newsletterSubscribers = [],
     analyticsEvents = [], delay = healthy, throws = noThrow\<rparr>"

definition user1 :: userRow where
  "user1 = \<lparr>u_id = 1, u_email = ''a@b.c'', u_firstName = Some ''Ada'', u_lastName = None,
     u_companyName = None, u_phone = None, u_createdAt = 30, u_lastLogin = None,
     u_emailVerified = None, u_isNewUser = True, u_role = ''customer''\<rparr>"

definition quoteNewer :: quoteRow where
  "quoteNewer = \<lparr>q_id = ''q2'', q_reference = ''R2'', q_status = ''approved'', q_total = 7,
     q_createdAt = 20, q_updatedAt = 20, q_userId = None, q_lines = []\<rparr>"

definition quoteOlder :: quoteRow where
  "quoteOlder = \<lparr>q_id = ''q1'', q_reference = ''R1'', q_status = ''pending'', q_total = 5,
     q_createdAt = 10, q_updatedAt = 10, q_userId = None, q_lines = []\<rparr>"

definition form1 :: formRow where
  "form1 = \<lparr>f_id = ''f1'', f_formType = ''contact'', f_data = ''{}'', f_submittedAt = 100,
     f_status = ''new'', f_ipAddress = None\<rparr>"

definition quoteTieA :: quoteRow where
  "quoteTieA = \<lparr>q_id = ''a1'', q_reference = ''R3'', q_status = ''pending'', q_total = 1,
     q_createdAt = 30, q_updatedAt = 30, q_userId = None, q_lines = []\<rparr>"

definition quoteTieZ :: quoteRow where
  "quoteTieZ = \<lparr>q_id = ''z1'', q_reference = ''R4'', q_status = ''pending'', q_total = 1,
     q_createdAt = 30, q_updatedAt = 30, q_userId = None, q_lines = []\<rparr>"

definition tieDbA :: db where
  "tieDbA = emptyDb\<lparr>users := [user1], quotes := [quoteTieA]\<rparr>"

definition tieDbZ :: db where
  "tieDbZ = emptyDb\<lparr>users := [user1], quotes := [quoteTieZ]\<rparr>"

definition twoQuotesDb :: db where
  "twoQuotesDb = emptyDb\<lparr>quotes := [quoteOlder, quoteNewer]\<rparr>"

definition oneUserDb :: db where
  "oneUserDb = emptyDb\<lparr>users := [user1]\<rparr>"

definition oneFormDb :: db where
  "oneFormDb = emptyDb\<lparr>formSubmissions := [form1]\<rparr>"

definition userDbQuoteFails :: db where
  "userDbQuoteFails = emptyDb\<lparr>users := [user1], throws := quoteRawThrows\<rparr>"

definition formsTimeoutDb :: db where
  "formsTimeoutDb = emptyDb\<lparr>formSubmissions := [form1], delay := slowFormPage\<rparr>"

definition etagStub :: "responseData \<Rightarrow> string" where
  "etagStub rd = ''etag''"

definition localRequest :: request where
  "localRequest = \<lparr>hostname = ''localhost'', authorization = None, ifNoneMatch = None,
     pageParam = None, limitParam = None\<rparr>"

definition bearerRequest :: request where
  "bearerRequest = \<lparr>hostname = ''admin.example.com'', authorization = Some ''Bearer x'',
     ifNoneMatch = None, pageParam = None, limitParam = None\<rparr>"

definition anonymousRequest :: request where
  "anonymousRequest = \<lparr>hostname = ''admin.example.com'', authorization = None,
     ifNoneMatch = None, pageParam = None, limitParam = None\<rparr>"

definition lookalikeRequest :: request where
  "lookalikeRequest = \<lparr>hostname = ''notlocalhost.example.com'', authorization = None,
     ifNoneMatch = None, pageParam = None, limitParam = None\<rparr>"

definition nanLimitRequest :: request where
  "nanLimitRequest = \<lparr>hostname = ''admin.example.com'', authorization = Some ''Bearer x'',
     ifNoneMatch = None, pageParam = None, limitParam = Some ParsedNaN\<rparr>"

definition isoStub :: "nat \<Rightarrow> string" where
  "isoStub t = ''t''"


section \<open>Properties of the cache layer\<close>

lemma find_key_filter_neq [simp]:
  "find (\<lambda>e. fst e = key \<and> P e) (filter (\<lambda>e. fst e \<noteq> key) es) = None"
  by (induction es) auto

lemma cache_get_None [simp]: "cache_get None key now = JNull"
  by (simp add: cache_get_def)

lemma cache_set_None [simp]: "cache_set None key v ttl now = None"
  by (simp add: cache_set_def)

lemma cache_get_set_same:
  "cache_get (cache_set (Some c) key v (Some ttl) t1) key t2 =
     (if reachable c \<and> (ttl = 0 \<or> t2 < t1 + ttl * 1000) then v else JNull)"
  by (simp add: cache_get_def cache_set_def redis_get_def redis_setex_def redis_set_def live_def)

lemma cache_get_set_falsy:
  "\<not> truthy v \<Longrightarrow> \<not> truthy (cache_get (cache_set r key v (Some ttl) t1) key t2)"
  by (cases r) (simp_all add: cache_get_set_same)

lemma cache_get_emptyRedis [simp]: "cache_get emptyRedis key now = JNull"
  by (simp add: emptyRedis_def cache_get_def redis_get_def)

lemma cache_get_set_emptyRedis:
  "cache_get (cache_set emptyRedis key v (Some ttl) t1) key t2 =
     (if ttl = 0 \<or> t2 < t1 + ttl * 1000 then v else JNull)"
  by (simp add: emptyRedis_def cache_get_set_same)

lemma getCachedQuery_miss:
  "\<not> truthy (cache_get r key now) \<Longrightarrow> fetcher () = Inr v \<Longrightarrow>
   getCachedQuery r key fetcher ttl now = (Inr v, cache_set r key v (Some ttl) now, 1)"
  by (simp add: getCachedQuery_def)

lemma getCachedQuery_hit:
  "truthy (cache_get r key now) \<Longrightarrow>
   getCachedQuery r key fetcher ttl now = (Inr (cache_get r key now), r, 0)"
  by (simp add: getCachedQuery_def Let_def)

lemma getCachedQuery_passthrough:
  "r = None \<or> (\<exists>c. r = Some c \<and> \<not> reachable c) \<Longrightarrow>
   getCachedQuery r key fetcher ttl now = (fetcher (), r, 1)"
  by (auto simp add: getCachedQuery_def cache_get_def cache_set_def redis_get_def redis_setex_def
        redis_set_def split: sum.splits)




lemma falsy_iff: "\<not> truthy v \<longleftrightarrow> v \<in> {JNull, JBool False, JNum 0, JStr []}"
  by (cases v) auto

text \<open>
  C10. A falsy value (\<^verbatim>\<open>null\<close>, \<^verbatim>\<open>false\<close>, \<^verbatim>\<open>0\<close>, the empty string) that the fetcher
  yields on a miss is stored, and while it is alive the store returns it, but
  \<^verbatim>\<open>getCachedQuery\<close> treats it as a miss: every later call, at any time \<open>t2\<close>, invokes its
  fetcher again and returns what that fetcher yields.
\<close>

theorem getCachedQuery_falsy_recomputes:
  assumes "\<not> truthy v" and "fetcher () = Inr v" and "\<not> truthy (cache_get r key t1)"
  shows "getCachedQuery r key fetcher ttl t1 = (Inr v, cache_set r key v (Some ttl) t1, 1)
     \<and> fst (getCachedQuery (cache_set r key v (Some ttl) t1) key fetcher2 ttl2 t2) = fetcher2 ()
     \<and> snd (snd (getCachedQuery (cache_set r key v (Some ttl) t1) key fetcher2 ttl2 t2)) = 1
     \<and> (\<forall>c. r = Some c \<and> reachable c \<and> t2 < t1 + ttl * 1000 \<longrightarrow>
            cache_get (cache_set r key v (Some ttl) t1) key t2 = v)"
proof (intro conjI allI impI)
  show "getCachedQuery r key fetcher ttl t1 = (Inr v, cache_set r key v (Some ttl) t1, 1)"
    using assms by (simp add: getCachedQuery_miss)
next
  have miss: "\<not> truthy (cache_get (cache_set r key v (Some ttl) t1) key t2)"
    using assms(1) by (rule cache_get_set_falsy)
  show "fst (getCachedQuery (cache_set r key v (Some ttl) t1) key fetcher2 ttl2 t2) = fetcher2 ()"
    using miss by (simp add: getCachedQuery_def split: sum.splits)
  show "snd (snd (getCachedQuery (cache_set r key v (Some ttl) t1) key fetcher2 ttl2 t2)) = 1"
    using miss by (simp add: getCachedQuery_def split: sum.splits)
next
  fix c
  assume "r = Some c \<and> reachable c \<and> t2 < t1 + ttl * 1000"
  then show "cache_get (cache_set r key v (Some ttl) t1) key t2 = v"
    by (simp add: cache_get_set_same)
qed

theorem getCachedQuery_falsy_recomputes_witness:
  "\<not> truthy (JNum 0) \<and> resolved (JNum 0) () = Inr (JNum 0)
   \<and> \<not> truthy (cache_get emptyRedis ''k'' 0)
   \<and> getCachedQuery emptyRedis ''k'' (resolved (JNum 0)) 10 0
        = (Inr (JNum 0), cache_set emptyRedis ''k'' (JNum 0) (Some 10) 0, 1)
   \<and> snd (snd (getCachedQuery (cache_set emptyRedis ''k'' (JNum 0) (Some 10) 0) ''k''
                  (resolved (JNum 0)) 10 5000)) = 1
   \<and> cache_get (cache_set emptyRedis ''k'' (JNum 0) (Some 10) 0) ''k'' 5000 = JNum 0"
  using getCachedQuery_falsy_recomputes
    [of "JNum 0" "resolved (JNum 0)" emptyRedis "''k''" 0 10 "resolved (JNum 0)" 10 5000]
  by (simp add: emptyRedis_def resolved_def cache_get_def redis_get_def)

section \<open>Queries, timeouts and the bodies of the fetchers\<close>

lemma withTimeout_query:
  "withTimeout (query d t k x) 10000 =
     (if fails d (t, k)
      then (if 10000 \<le> delay d t k then Inl (QueryTimeout 10000) else Inl QueryFailed)
      else Inr x)"
  by (auto simp add: withTimeout_def query_def fails_def)

lemma fold_max_less: "fold max xs (a::nat) < m \<longleftrightarrow> a < m \<and> (\<forall>x\<in>set xs. x < m)"
  by (induction xs arbitrary: a) auto

lemma promise_all_resolves:
  "\<forall>p\<in>set ps. \<not> isl (snd p) \<Longrightarrow>
   promise_all ps = (fold max (map fst ps) 0, Inr (map (\<lambda>p. projr (snd p)) ps))"
  by (simp add: promise_all_def filter_empty_conv[THEN iffD2])

lemma promise_all_rejects:
  assumes "\<exists>p\<in>set ps. isl (snd p)"
  shows "isl (snd (promise_all ps))"
proof -
  from assms have "filter (\<lambda>p. isl (snd p)) ps \<noteq> []"
    by (simp add: filter_empty_conv)
  then obtain x xs where "filter (\<lambda>p. isl (snd p)) ps = x # xs"
    by (cases "filter (\<lambda>p. isl (snd p)) ps") auto
  then show ?thesis
    by (simp add: promise_all_def Let_def)
qed

lemma withTimeout_promise_all_queries:
  "withTimeout (promise_all (map (\<lambda>(q, x). query d (fst q) (snd q) x) qs)) 10000 = Inr ys
   \<longleftrightarrow> (\<forall>q\<in>set (map fst qs). \<not> fails d q) \<and> ys = map snd qs"
proof (cases "\<exists>q\<in>set (map fst qs). throws d (fst q) (snd q)")
  case True
  then have "\<exists>p\<in>set (map (\<lambda>(q, x). query d (fst q) (snd q) x) qs). isl (snd p)"
    by (force simp add: query_def)
  then have "isl (snd (promise_all (map (\<lambda>(q, x). query d (fst q) (snd q) x) qs)))"
    by (rule promise_all_rejects)
  then have "isl (withTimeout (promise_all (map (\<lambda>(q, x). query d (fst q) (snd q) x) qs)) 10000)"
    by (simp add: withTimeout_def)
  with True show ?thesis
    by (auto simp add: fails_def)
next
  case False
  then have ok: "\<forall>p\<in>set (map (\<lambda>(q, x). query d (fst q) (snd q) x) qs). \<not> isl (snd p)"
    by (auto simp add: query_def)
  have vals: "map (\<lambda>p. projr (snd p)) (map (\<lambda>(q, x). query d (fst q) (snd q) x) qs) = map snd qs"
    using False by (auto simp add: query_def)
  have delays: "fold max (map fst (map (\<lambda>(q, x). query d (fst q) (snd q) x) qs)) 0 < 10000
      \<longleftrightarrow> (\<forall>q\<in>set (map fst qs). delay d (fst q) (snd q) < 10000)"
    by (force simp add: fold_max_less query_def)
  have "withTimeout (promise_all (map (\<lambda>(q, x). query d (fst q) (snd q) x) qs)) 10000 = Inr ys
      \<longleftrightarrow> (\<forall>q\<in>set (map fst qs). delay d (fst q) (snd q) < 10000) \<and> ys = map snd qs"
    unfolding promise_all_resolves[OF ok] vals withTimeout_def fst_conv snd_conv delays [symmetric]
    by auto
  with False show ?thesis
    by (auto simp add: fails_def not_le)
qed

lemma totalCount_Inr:
  "withTimeout (totalCountQuery d) 10000 = Inr ys \<longleftrightarrow>
     (\<forall>q\<in>set [(User, Count), (Quote, Count), (FormSubmission, Count),
                  (NewsletterSubscriber, Count), (AnalyticsEvent, Count)]. \<not> fails d q)
     \<and> ys = [length (users d), length (quotes d), length (formSubmissions d),
              length (newsletterSubscribers d),
              length (filter (\<lambda>a. a_eventType a = ''checkout_completed'') (analyticsEvents d))]"
  using withTimeout_promise_all_queries
    [of d "[((User, Count), length (users d)), ((Quote, Count), length (quotes d)),
            ((FormSubmission, Count), length (formSubmissions d)),
            ((NewsletterSubscriber, Count), length (newsletterSubscribers d)),
            ((AnalyticsEvent, Count),
             length (filter (\<lambda>a. a_eventType a = ''checkout_completed'') (analyticsEvents d)))]" ys]
  by (simp add: totalCountQuery_def)

lemma findMany_Num [simp]:
  "findMany d t (Num n) (Num s) rows = query d t FindMany (rows s n)"
  by (simp add: findMany_def)

lemma findMany_NaN:
  "lim = NaN \<or> off = NaN \<Longrightarrow> withTimeout (findMany d t lim off rows) 10000 = Inl InvalidArgument"
  by (auto simp add: findMany_def withTimeout_def split: jsnum.splits)

lemma businessActivitiesRaw_Num [simp]:
  "businessActivitiesRaw d (Num n) = query d Quote Raw (businessActivitiesQuery d n)"
  by (simp add: businessActivitiesRaw_def)

lemma jsnum_cases2:
  obtains (nums) a l where "off = Num a" and "lim = Num l" | (nan) "lim = NaN \<or> off = NaN"
  by (cases off; cases lim) auto

lemma fetcherCall_eq:
  "fetcherCall f r d off lim now =
     getCachedQuery r (fetcherKey f off lim) (\<lambda>_. catchPage (fetcherTry f d off lim) off lim)
       CACHE_TTL_dashboard_realtime now"
  by (cases f)
     (simp_all add: getRecentActivitiesOptimized_def getQuotesOptimized_def getNewUsersOptimized_def
        getNewsletterSubscribersOptimized_def getFormSubmissionsOptimized_def)

lemma pageTry_queries:
  "pageTry (query d t1 k1 rows) (query d t2 k2 cnt) off lim =
     (if fails d (t1, k1) \<or> fails d (t2, k2)
      then Inl (if fails d (t1, k1)
                then (if 10000 \<le> delay d t1 k1 then QueryTimeout 10000 else QueryFailed)
                else (if 10000 \<le> delay d t2 k2 then QueryTimeout 10000 else QueryFailed))
      else Inr \<lparr>data = rows, total' = cnt, offset = off, limit = lim,
                hasMore = js_less (js_add off lim) (Num cnt)\<rparr>)"
  by (simp add: pageTry_def withTimeout_query)

lemma fetcherTry_NaN:
  assumes "lim = NaN \<or> off = NaN"
  shows "fetcherTry f d off lim = Inl InvalidArgument"
  by (cases f)
     (simp_all add: recentActivitiesTry_def quotesTry_def newUsersTry_def newsletterTry_def
        formsTry_def pageTry_def findMany_NaN [OF assms])

lemma recentActivitiesTry_fails:
  assumes "\<exists>q\<in>set (fetcherQueries RecentActivities). fails d q"
  shows "isl (recentActivitiesTry d off lim)"
proof (cases off lim rule: jsnum_cases2)
  case nan
  then show ?thesis
    using fetcherTry_NaN [of lim off RecentActivities d] by simp
next
  case (nums a l)
  show ?thesis
  proof (cases "fails d (User, FindMany) \<or> fails d (Quote, Raw)")
    case True
    then show ?thesis
      using nums by (auto simp add: recentActivitiesTry_def withTimeout_query)
  next
    case False
    with assms have "\<not> (\<forall>q\<in>set [(User, Count), (Quote, Count), (FormSubmission, Count),
                (NewsletterSubscriber, Count), (AnalyticsEvent, Count)]. \<not> fails d q)"
      by auto
    then have "\<And>ys. withTimeout (totalCountQuery d) 10000 \<noteq> Inr ys"
      using totalCount_Inr by blast
    then have "isl (withTimeout (totalCountQuery d) 10000)"
      by (cases "withTimeout (totalCountQuery d) 10000") auto
    then show ?thesis
      by (auto simp add: recentActivitiesTry_def split: sum.splits)
  qed
qed

lemma recentActivitiesTry_ok:
  assumes "\<forall>q\<in>set (fetcherQueries RecentActivities). \<not> fails d q"
  shows "recentActivitiesTry d (Num off) (Num lim) =
     Inr \<lparr>data = map ActivityItem
                  (take lim (js_sort (\<lambda>a b. timestamp b - timestamp a)
                     (map mapUser (userActivitiesQuery d off lim)
                      @ map mapQuote (businessActivitiesQuery d lim)))),
          total' = length (users d) + length (quotes d) + length (formSubmissions d)
                   + length (newsletterSubscribers d)
                   + length (filter (\<lambda>a. a_eventType a = ''checkout_completed'') (analyticsEvents d)),
          offset = Num off, limit = Num lim,
          hasMore = (off + lim < length (users d) + length (quotes d) + length (formSubmissions d)
                   + length (newsletterSubscribers d)
                   + length (filter (\<lambda>a. a_eventType a = ''checkout_completed'') (analyticsEvents d)))\<rparr>"
proof -
  have "withTimeout (totalCountQuery d) 10000 =
      Inr [length (users d), length (quotes d), length (formSubmissions d),
              length (newsletterSubscribers d),
              length (filter (\<lambda>a. a_eventType a = ''checkout_completed'') (analyticsEvents d))]"
    using assms by (simp add: totalCount_Inr)
  then show ?thesis
    using assms by (simp add: recentActivitiesTry_def withTimeout_query Let_def add.assoc)
qed

lemma fetcherTry_fails:
  assumes "\<exists>q\<in>set (fetcherQueries f). fails d q"
  shows "isl (fetcherTry f d off lim)"
proof (cases off lim rule: jsnum_cases2)
  case nan
  then show ?thesis
    by (simp add: fetcherTry_NaN)
next
  case (nums a l)
  show ?thesis
  proof (cases f)
    case RecentActivities
    with assms show ?thesis
      using recentActivitiesTry_fails [of d off lim] by simp
  qed (use assms nums in \<open>auto simp add: quotesTry_def newUsersTry_def newsletterTry_def
         formsTry_def pageTry_queries\<close>)
qed

lemma fetcherTry_ok:
  assumes "fetcherTry f d off (Num l) = Inr p"
  shows "paginated_ok p \<and> offset p = off \<and> limit p = Num l"
proof (cases off)
  case NaN
  with assms show ?thesis
    by (simp add: fetcherTry_NaN)
next
  case (Num a)
  show ?thesis
  proof (cases f)
    case RecentActivities
    with assms Num show ?thesis
      by (auto simp add: recentActivitiesTry_def paginated_ok_def Let_def split: sum.splits)
  qed (use assms Num in \<open>auto simp add: quotesTry_def newUsersTry_def newsletterTry_def
         formsTry_def pageTry_queries paginated_ok_def split: if_splits\<close>)
qed

lemma sentinel_ok: "paginated_ok (sentinel off (Num l))"
  by (cases off) (simp_all add: paginated_ok_def sentinel_def)

lemma nan_limit_not_ok: "\<not> paginated_ok (p\<lparr>limit := NaN\<rparr>)"
  by (simp add: paginated_ok_def)

lemma catchPage_page:
  "\<exists>p. catchPage (fetcherTry f d off (Num l)) off (Num l) = Inr (JPage p) \<and> paginated_ok p"
  by (cases "fetcherTry f d off (Num l)")
     (auto simp add: catchPage_def sentinel_ok dest: fetcherTry_ok)

lemma catchPage_failure:
  "isl body \<Longrightarrow> catchPage body off lim = Inr (JPage (sentinel off lim))"
  by (cases body) (simp_all add: catchPage_def)

lemma fetcherKey_dashboard:
  "startsWith (fetcherKey f off lim) ''dashboard:'' \<and> fetcherKey f off lim \<noteq> ''dashboard:stats''"
  by (cases f)
     (simp_all add: CACHE_KEYS_dashboard_activities_def CACHE_KEYS_dashboard_quotes_def
        CACHE_KEYS_dashboard_users_def CACHE_KEYS_dashboard_newsletter_def
        CACHE_KEYS_dashboard_forms_def)

lemma healthy_never_fails [simp]:
  "delay d = healthy \<Longrightarrow> throws d = noThrow \<Longrightarrow> \<not> fails d q"
  by (simp add: fails_def healthy_def noThrow_def)

lemma fetcherTry_emptyDb:
  "catchPage (fetcherTry f emptyDb off lim) off lim = Inr (JPage (sentinel off lim))"
proof (cases off lim rule: jsnum_cases2)
  case nan
  then show ?thesis
    by (simp add: fetcherTry_NaN catchPage_def)
next
  case (nums a l)
  have "fetcherTry f emptyDb (Num a) (Num l) = Inr (sentinel (Num a) (Num l))"
  proof (cases f)
    case RecentActivities
    have "\<forall>q\<in>set (fetcherQueries RecentActivities). \<not> fails emptyDb q"
      by (simp add: emptyDb_def)
    from recentActivitiesTry_ok [OF this, of a l] RecentActivities show ?thesis
      by (simp add: emptyDb_def sentinel_def userActivitiesQuery_def businessActivitiesQuery_def
            js_sort_def)
  qed (simp_all add: quotesTry_def newUsersTry_def newsletterTry_def formsTry_def pageTry_queries
         emptyDb_def sentinel_def)
  with nums show ?thesis
    by (simp add: catchPage_def)
qed

lemma fetcherCall_None:
  "fetcherCall f None d off lim now = (catchPage (fetcherTry f d off lim) off lim, None, 1)"
  by (simp add: fetcherCall_eq getCachedQuery_def split: sum.splits)

section \<open>The invariant of paginated results\<close>

lemma cache_get_truthy_ok:
  assumes "cache_pages_ok r" and "startsWith key ''dashboard:''" and "key \<noteq> ''dashboard:stats''"
    and "truthy (cache_get r key now)"
  shows "\<exists>p. cache_get r key now = JPage p \<and> paginated_ok p"
proof (cases r)
  case None
  with assms(4) show ?thesis by simp
next
  case (Some c)
  show ?thesis
  proof (cases "find (\<lambda>e. fst e = key \<and> live now e) (entries c)")
    case None
    with Some assms(4) show ?thesis
      by (simp add: cache_get_def redis_get_def split: if_splits)
  next
    case (Some e)
    then have mem: "e \<in> set (entries c)" and k: "fst e = key"
      by (auto simp add: find_Some_iff in_set_conv_nth)
    from mem \<open>r = Some c\<close> assms(1) have "entry_ok e"
      by (simp add: cache_pages_ok_def list_all_iff)
    with k assms(2,3) have page: "case fst (snd e) of JPage p \<Rightarrow> paginated_ok p | _ \<Rightarrow> False"
      by (simp add: entry_ok_def)
    have "cache_get r key now = fst (snd e) \<or> cache_get r key now = JNull"
      using Some \<open>r = Some c\<close> by (simp add: cache_get_def redis_get_def)
    with assms(4) have "cache_get r key now = fst (snd e)"
      by auto
    with page show ?thesis
      by (cases "fst (snd e)") auto
  qed
qed

lemma cache_set_ok:
  assumes "cache_pages_ok r" and "paginated_ok p"
  shows "cache_pages_ok (cache_set r key (JPage p) ttl now)"
proof (cases r)
  case None
  then show ?thesis by (simp add: cache_pages_ok_def)
next
  case (Some c)
  with assms(1) have all: "list_all entry_ok (entries c)"
    by (simp add: cache_pages_ok_def)
  then have "list_all entry_ok (filter (\<lambda>e. fst e \<noteq> key) (entries c))"
    by (simp add: list_all_iff)
  moreover have "entry_ok (key, JPage p, t)" for t
    using assms(2) by (simp add: entry_ok_def)
  ultimately show ?thesis
    using Some all
    by (auto simp add: cache_pages_ok_def cache_set_def redis_setex_def redis_set_def
          split: option.splits)
qed

text \<open>
  With a limit that is a number, whatever one of the five fetchers returns is a page that
  satisfies the invariant: on the success path, on the error path, and on a cache hit,
  provided the store holds pages of that kind under the dashboard keys; the call leaves the
  store in that condition.
\<close>

lemma fetcherCall_paginated_ok:
  assumes "cache_pages_ok r"
  shows "\<exists>p. fst (fetcherCall f r d off (Num l) now) = Inr (JPage p)
            \<and> paginated_ok p
            \<and> cache_pages_ok (fst (snd (fetcherCall f r d off (Num l) now)))"
proof (cases "truthy (cache_get r (fetcherKey f off (Num l)) now)")
  case True
  then obtain p where "cache_get r (fetcherKey f off (Num l)) now = JPage p" and "paginated_ok p"
    using cache_get_truthy_ok [OF assms _ _ True] fetcherKey_dashboard [of f off "Num l"] by blast
  with True assms show ?thesis
    by (simp add: fetcherCall_eq getCachedQuery_hit)
next
  case False
  obtain p where p: "catchPage (fetcherTry f d off (Num l)) off (Num l) = Inr (JPage p)"
    and ok: "paginated_ok p"
    using catchPage_page by blast
  from False p have "fetcherCall f r d off (Num l) now =
      (Inr (JPage p),
       cache_set r (fetcherKey f off (Num l)) (JPage p) (Some CACHE_TTL_dashboard_realtime) now, 1)"
    by (simp add: fetcherCall_eq getCachedQuery_miss)
  with ok cache_set_ok [OF assms ok] show ?thesis
    by simp
qed

text \<open>
  The other dashboard operations keep the store in that condition as well: the statistics
  are written under \<^verbatim>\<open>dashboard:stats\<close>, and invalidation only removes entries.
\<close>

lemma cache_invalidatePattern_ok:
  "cache_pages_ok r \<Longrightarrow> cache_pages_ok (cache_invalidatePattern r pattern now)"
  by (auto simp add: cache_pages_ok_def cache_invalidatePattern_def redis_keys_def redis_del_def
        list_all_iff split: option.splits)

lemma invalidateDashboardCache_ok:
  "cache_pages_ok r \<Longrightarrow> cache_pages_ok (invalidateDashboardCache r pattern now)"
  by (simp add: invalidateDashboardCache_def cache_invalidatePattern_ok split: option.splits)

lemma updateFormSubmissionStatus_ok:
  "cache_pages_ok r \<Longrightarrow>
   cache_pages_ok (fst (snd (updateFormSubmissionStatus r d ident status now)))"
  by (simp add: updateFormSubmissionStatus_def Let_def invalidateDashboardCache_ok
        split: sum.splits)

lemma getActivityStatsOptimized_ok:
  assumes "cache_pages_ok r"
  shows "cache_pages_ok (fst (snd (getActivityStatsOptimized r d now)))"
proof (cases r)
  case None
  then show ?thesis
    by (simp add: getActivityStatsOptimized_def getCachedQuery_def Let_def cache_pages_ok_def
          split: sum.splits)
next
  case (Some c)
  have "entry_ok (CACHE_KEYS_dashboard_stats, v, t)" for v t
    by (simp add: entry_ok_def CACHE_KEYS_dashboard_stats_def)
  moreover from Some assms have "list_all entry_ok (entries c)"
    by (simp add: cache_pages_ok_def)
  ultimately show ?thesis
    using Some
    by (auto simp add: getActivityStatsOptimized_def getCachedQuery_def Let_def cache_pages_ok_def
          cache_set_def redis_setex_def redis_set_def CACHE_TTL_dashboard_stats_def list_all_iff
          split: sum.splits)
qed

lemma step_ok:
  assumes "cache_pages_ok r" and "step r a d now = (res, r')"
  shows "cache_pages_ok r'
     \<and> (\<forall>v. res = Some v \<longrightarrow> (\<exists>p. v = Inr (JPage p) \<and> paginated_ok p))"
proof (cases a)
  case (Fetch f off lim)
  with assms fetcherCall_paginated_ok [OF assms(1), of f d off lim now] show ?thesis
    by auto
next
  case Stats
  with assms show ?thesis
    by (auto simp add: getActivityStatsOptimized_ok)
next
  case (UpdateForm ident status)
  with assms show ?thesis
    by (auto simp add: updateFormSubmissionStatus_ok)
next
  case InvalidateAll
  with assms show ?thesis
    by (auto simp add: invalidateAllDashboardCache_def invalidateDashboardCache_ok)
qed

lemma cache_pages_ok_reachable:
  "cache_pages_ok r \<Longrightarrow> cache_pages_ok (map_option (\<lambda>c. c\<lparr>reachable := up\<rparr>) r)"
  by (cases r) (simp_all add: cache_pages_ok_def)

text \<open>
  Hence along every history of calls with numeric limits that starts from a store in that
  condition, the empty store or none at all among them, each result of a fetcher is such a
  page.
\<close>

lemma run_paginated_ok:
  assumes "cache_pages_ok r"
  shows "\<forall>v\<in>set (run r hist). \<exists>p. v = Inr (JPage p) \<and> paginated_ok p"
  using assms
proof (induction hist arbitrary: r)
  case Nil
  then show ?case by simp
next
  case (Cons h hist)
  obtain a d now up where h: "h = (a, d, now, up)"
    by (cases h) auto
  let ?r = "map_option (\<lambda>c. c\<lparr>reachable := up\<rparr>) r"
  obtain res r' where s: "step ?r a d now = (res, r')"
    by (cases "step ?r a d now") auto
  have "cache_pages_ok ?r"
    using Cons.prems by (rule cache_pages_ok_reachable)
  from step_ok [OF this s] Cons.IH [of r'] h s show ?case
    by (cases res) auto
qed

lemma run_from_empty_paginated_ok:
  "\<forall>v\<in>set (run emptyRedis hist). \<exists>p. v = Inr (JPage p) \<and> paginated_ok p"
  by (rule run_paginated_ok) (simp add: cache_pages_ok_def emptyRedis_def)

lemma fetchDashboard_None:
  "fetchDashboard None d off lim now =
     ((settledOr (catchPage (recentActivitiesTry d off lim) off lim) (JPage (sentinel off lim)),
       settledOr (case statsTry d now of Inl e \<Rightarrow> Inr (JStats zeroStats) | Inr s \<Rightarrow> Inr (JStats s))
         (JStats zeroStats),
       settledOr (catchPage (quotesTry d off lim None) off lim) (JPage (sentinel off lim)),
       settledOr (catchPage (newUsersTry d off lim) off lim) (JPage (sentinel off lim)),
       settledOr (catchPage (newsletterTry d off lim) off lim) (JPage (sentinel off lim)),
       settledOr (catchPage (formsTry d off lim) off lim) (JPage (sentinel off lim))),
      None, 6)"
proof -
  have calls: "getRecentActivitiesOptimized None d off lim now
        = (catchPage (recentActivitiesTry d off lim) off lim, None, 1)"
      "getQuotesOptimized None d off lim None now
        = (catchPage (quotesTry d off lim None) off lim, None, 1)"
      "getNewUsersOptimized None d off lim now
        = (catchPage (newUsersTry d off lim) off lim, None, 1)"
      "getNewsletterSubscribersOptimized None d off lim now
        = (catchPage (newsletterTry d off lim) off lim, None, 1)"
      "getFormSubmissionsOptimized None d off lim now
        = (catchPage (formsTry d off lim) off lim, None, 1)"
    using fetcherCall_None [of RecentActivities d off lim now]
      fetcherCall_None [of "Quotes None" d off lim now]
      fetcherCall_None [of NewUsers d off lim now]
      fetcherCall_None [of NewsletterSubscribers d off lim now]
      fetcherCall_None [of FormSubmissions d off lim now]
    by simp_all
  have stats: "getActivityStatsOptimized None d now
        = (case statsTry d now of Inl e \<Rightarrow> Inr (JStats zeroStats) | Inr s \<Rightarrow> Inr (JStats s),
           None, 1)"
    by (simp add: getActivityStatsOptimized_def getCachedQuery_def split: sum.splits)
  show ?thesis
    by (simp add: fetchDashboard_def calls stats)
qed

lemma GET_passed_None:
  assumes "\<not> rejectsUnauthenticated req" and "ifNoneMatch req = None"
  shows "\<exists>body. GET md5 toISOString elapsed None d req now = (Ok200 body (md5 body), None, 6)
     \<and> rd_newUsers body =
         settledOr (catchPage (newUsersTry d (js_mul (pageOf (pageParam req)) (limitOf (limitParam req)))
                                 (limitOf (limitParam req)))
                      (js_mul (pageOf (pageParam req)) (limitOf (limitParam req)))
                      (limitOf (limitParam req)))
           (JPage (sentinel (js_mul (pageOf (pageParam req)) (limitOf (limitParam req)))
                     (limitOf (limitParam req))))
     \<and> rd_forms body =
         settledOr (catchPage (formsTry d (js_mul (pageOf (pageParam req)) (limitOf (limitParam req)))
                                 (limitOf (limitParam req)))
                      (js_mul (pageOf (pageParam req)) (limitOf (limitParam req)))
                      (limitOf (limitParam req)))
           (JPage (sentinel (js_mul (pageOf (pageParam req)) (limitOf (limitParam req)))
                     (limitOf (limitParam req))))"
  using assms by (simp add: GET_def Let_def fetchDashboard_None)

text \<open>
  C6. The invariant fails where the limit is not a number. The read endpoint, which calls
  the fetchers, clamps the \<^verbatim>\<open>limit\<close> parameter with \<^verbatim>\<open>Math.min\<close> and
  \<^verbatim>\<open>Math.max\<close>, which let \<^verbatim>\<open>NaN\<close> through: for \<^verbatim>\<open>?limit=abc\<close> it calls every
  fetcher with offset and limit \<^verbatim>\<open>NaN\<close>. Called with the limit \<^verbatim>\<open>NaN\<close> and nothing
  cached, each of the five fetchers returns the page \<open>{data: [], total: 0, offset, limit:
  NaN, hasMore: false}\<close>, and \<open>data.length \<le> limit\<close> is false of it, as it is of every page
  whose limit is \<^verbatim>\<open>NaN\<close>. The endpoint serves that page for the form submissions, of which
  the database holds one.
\<close>

theorem fetchers_nan_limit_breaks_invariant:
  "limitOf (limitParam nanLimitRequest) = NaN
   \<and> js_mul (pageOf (pageParam nanLimitRequest)) (limitOf (limitParam nanLimitRequest)) = NaN
   \<and> fst (fetcherCall f emptyRedis d off NaN now)
       = Inr (JPage \<lparr>data = [], total' = 0, offset = off, limit = NaN, hasMore = False\<rparr>)
   \<and> \<not> js_le (Num (length (data \<lparr>data = [], total' = 0, offset = off, limit = NaN,
                                   hasMore = False\<rparr>)))
            (limit \<lparr>data = [], total' = 0, offset = off, limit = NaN, hasMore = False\<rparr>)
   \<and> \<not> paginated_ok \<lparr>data = [], total' = 0, offset = off, limit = NaN, hasMore = False\<rparr>
   \<and> \<not> paginated_ok (p\<lparr>limit := NaN\<rparr>)
   \<and> (\<exists>body. GET etagStub isoStub 0 None oneFormDb nanLimitRequest 0
                = (Ok200 body ''etag'', None, 6)
          \<and> rd_forms body
              = JPage \<lparr>data = [], total' = 0, offset = NaN, limit = NaN, hasMore = False\<rparr>)
   \<and> formSubmissions oneFormDb = [form1]"
proof -
  have lim: "limitOf (limitParam nanLimitRequest) = NaN"
    and off: "js_mul (pageOf (pageParam nanLimitRequest)) (limitOf (limitParam nanLimitRequest)) = NaN"
    by (simp_all add: nanLimitRequest_def limitOf_def pageOf_def)
  have "catchPage (fetcherTry f d off NaN) off NaN = Inr (JPage (sentinel off NaN))"
    by (simp add: fetcherTry_NaN catchPage_def)
  then have call: "fst (fetcherCall f emptyRedis d off NaN now)
       = Inr (JPage \<lparr>data = [], total' = 0, offset = off, limit = NaN, hasMore = False\<rparr>)"
    by (simp add: fetcherCall_eq getCachedQuery_miss sentinel_def)
  have "\<not> rejectsUnauthenticated nanLimitRequest" and "ifNoneMatch nanLimitRequest = None"
    by (simp_all add: rejectsUnauthenticated_def nanLimitRequest_def)
  from GET_passed_None [OF this, of etagStub isoStub 0 oneFormDb 0]
  have served: "\<exists>body. GET etagStub isoStub 0 None oneFormDb nanLimitRequest 0
                = (Ok200 body ''etag'', None, 6)
          \<and> rd_forms body
              = JPage \<lparr>data = [], total' = 0, offset = NaN, limit = NaN, hasMore = False\<rparr>"
    unfolding lim off
    by (auto simp add: etagStub_def fetcherTry_NaN [of NaN NaN FormSubmissions, simplified]
          catchPage_def settledOr_def sentinel_def)
  have "formSubmissions oneFormDb = [form1]"
    by (simp add: oneFormDb_def emptyDb_def)
  with lim off call served show ?thesis
    by (simp add: paginated_ok_def)
qed

section \<open>Failures inside a fetcher\<close>

text \<open>
  C9. When a query of a fetcher throws or times out and the cache has nothing to serve, the
  fetcher does not reject: it resolves to the page \<open>{data: [], total: 0, offset, limit,
  hasMore: false}\<close>, stores it, and its outcome and store are those of the same call against
  an empty database that answers every query.
\<close>

theorem fetchers_error_is_empty_page:
  assumes "\<exists>q\<in>set (fetcherQueries f). fails d q"
    and "\<not> truthy (cache_get r (fetcherKey f off lim) now)"
  shows "fetcherCall f r d off lim now =
           (Inr (JPage \<lparr>data = [], total' = 0, offset = off, limit = lim, hasMore = False\<rparr>),
            cache_set r (fetcherKey f off lim)
              (JPage \<lparr>data = [], total' = 0, offset = off, limit = lim, hasMore = False\<rparr>)
              (Some 10) now,
            1)
     \<and> fetcherCall f r emptyDb off lim now = fetcherCall f r d off lim now"
proof -
  from assms(1) have "isl (fetcherTry f d off lim)"
    by (rule fetcherTry_fails)
  then have "catchPage (fetcherTry f d off lim) off lim = Inr (JPage (sentinel off lim))"
    by (rule catchPage_failure)
  moreover have "catchPage (fetcherTry f emptyDb off lim) off lim = Inr (JPage (sentinel off lim))"
    by (rule fetcherTry_emptyDb)
  ultimately show ?thesis
    using assms(2)
    by (simp add: fetcherCall_eq getCachedQuery_miss sentinel_def CACHE_TTL_dashboard_realtime_def)
qed

theorem fetchers_error_is_empty_page_witness:
  "(\<exists>q\<in>set (fetcherQueries FormSubmissions). fails formsTimeoutDb q)
   \<and> \<not> truthy (cache_get None (fetcherKey FormSubmissions (Num 0) (Num 20)) 0)
   \<and> fetcherCall FormSubmissions None formsTimeoutDb (Num 0) (Num 20) 0 =
       (Inr (JPage \<lparr>data = [], total' = 0, offset = Num 0, limit = Num 20, hasMore = False\<rparr>), None, 1)
   \<and> fetcherCall FormSubmissions None emptyDb (Num 0) (Num 20) 0
       = fetcherCall FormSubmissions None formsTimeoutDb (Num 0) (Num 20) 0"
  using fetchers_error_is_empty_page [of FormSubmissions formsTimeoutDb None "Num 0" "Num 20" 0]
  by (simp add: fails_def formsTimeoutDb_def emptyDb_def slowFormPage_def)

lemma recentActivities_failure:
  assumes "\<exists>q\<in>set (fetcherQueries RecentActivities). fails d q"
    and "\<not> truthy (cache_get r (CACHE_KEYS_dashboard_activities off lim) now)"
  shows "getRecentActivitiesOptimized r d off lim now =
           (Inr (JPage (sentinel off lim)),
            cache_set r (CACHE_KEYS_dashboard_activities off lim) (JPage (sentinel off lim))
              (Some CACHE_TTL_dashboard_realtime) now,
            1)"
proof -
  have "catchPage (recentActivitiesTry d off lim) off lim = Inr (JPage (sentinel off lim))"
    using assms(1) by (intro catchPage_failure recentActivitiesTry_fails)
  then show ?thesis
    using assms(2) by (simp add: getRecentActivitiesOptimized_def getCachedQuery_miss)
qed

text \<open>
  C1 (as amended). If one of the queries that the aggregator issues (the user page, the quote
  page or one of the five counts) throws or times out, the call still returns a non-error
  result, but that result is the empty page \<open>{data: [], total: 0, offset, limit, hasMore:
  false}\<close>: the events of the sources that answered are dropped with it.
\<close>

theorem recentActivities_failure_empties_feed:
  assumes "q \<in> set (fetcherQueries RecentActivities)" and "fails d q"
    and "\<not> truthy (cache_get r (CACHE_KEYS_dashboard_activities off lim) now)"
  shows "fst (getRecentActivitiesOptimized r d off lim now)
           = Inr (JPage \<lparr>data = [], total' = 0, offset = off, limit = lim, hasMore = False\<rparr>)
     \<and> snd (snd (getRecentActivitiesOptimized r d off lim now)) = 1"
  using assms recentActivities_failure [of d r off lim now]
  by (auto simp add: sentinel_def)

theorem recentActivities_failure_empties_feed_witness:
  "(Quote, Raw) \<in> set (fetcherQueries RecentActivities) \<and> fails userDbQuoteFails (Quote, Raw)
   \<and> \<not> truthy (cache_get emptyRedis (CACHE_KEYS_dashboard_activities (Num 0) (Num 20)) 0)
   \<and> fst (getRecentActivitiesOptimized emptyRedis userDbQuoteFails (Num 0) (Num 20) 0)
       = Inr (JPage \<lparr>data = [], total' = 0, offset = Num 0, limit = Num 20, hasMore = False\<rparr>)
   \<and> snd (snd (getRecentActivitiesOptimized emptyRedis userDbQuoteFails (Num 0) (Num 20) 0)) = 1"
  using recentActivities_failure_empties_feed
    [of "(Quote, Raw)" userDbQuoteFails emptyRedis "Num 0" "Num 20" 0]
  by (simp add: fails_def userDbQuoteFails_def quoteRawThrows_def emptyRedis_def cache_get_def
        redis_get_def)

text \<open>
  C1 as stated fails: the user page query answers with one row, only the raw quote query
  throws, and the feed that comes back holds no event at all.
\<close>

theorem recentActivities_partial_failure_counterexample:
  "fst (getRecentActivitiesOptimized None userDbQuoteFails (Num 0) (Num 20) 0)
     = Inr (JPage \<lparr>data = [], total' = 0, offset = Num 0, limit = Num 20, hasMore = False\<rparr>)
   \<and> withTimeout (findMany userDbQuoteFails User (Num 20) (Num 0)
                     (userActivitiesQuery userDbQuoteFails))
        10000 = Inr [user1]
   \<and> fails userDbQuoteFails (Quote, Raw)
   \<and> \<not> fails userDbQuoteFails (User, FindMany) \<and> \<not> fails userDbQuoteFails (User, Count)
   \<and> \<not> fails userDbQuoteFails (Quote, Count) \<and> \<not> fails userDbQuoteFails (FormSubmission, Count)
   \<and> \<not> fails userDbQuoteFails (NewsletterSubscriber, Count)
   \<and> \<not> fails userDbQuoteFails (AnalyticsEvent, Count)"
proof -
  have f: "fails userDbQuoteFails (Quote, Raw)"
    by (simp add: fails_def userDbQuoteFails_def quoteRawThrows_def)
  then have "\<exists>q\<in>set (fetcherQueries RecentActivities). fails userDbQuoteFails q"
    by simp
  then have "getRecentActivitiesOptimized None userDbQuoteFails (Num 0) (Num 20) 0 =
      (Inr (JPage (sentinel (Num 0) (Num 20))), None, 1)"
    using recentActivities_failure [of userDbQuoteFails None "Num 0" "Num 20" 0] by simp
  then show ?thesis
    using f
    by (simp add: sentinel_def withTimeout_query fails_def userDbQuoteFails_def emptyDb_def
          quoteRawThrows_def healthy_def userActivitiesQuery_def)
qed

section \<open>Order and window of the activity feed\<close>

lemma insertBy_insort_key:
  "insertBy (\<lambda>a b. timestamp b - timestamp a) x ys = insort_key (\<lambda>e. - timestamp e) x ys"
  by (induction ys) auto

lemma js_sort_sort_key:
  "js_sort (\<lambda>a b. timestamp b - timestamp a) xs = sort_key (\<lambda>e. - timestamp e) xs"
  by (induction xs) (simp_all add: js_sort_def insertBy_insort_key)

lemma js_sort_descending:
  "sorted_wrt (\<lambda>a b. timestamp b \<le> timestamp a) (js_sort (\<lambda>a b. timestamp b - timestamp a) xs)"
proof -
  have "sorted (map (\<lambda>e. - timestamp e) (sort_key (\<lambda>e. - timestamp e) xs))"
    by (rule sorted_sort_key)
  then show ?thesis
    by (simp add: js_sort_sort_key sorted_map)
qed

lemma js_sort_stable:
  "filter (\<lambda>e. timestamp e = t) (js_sort (\<lambda>a b. timestamp b - timestamp a) xs)
     = filter (\<lambda>e. timestamp e = t) xs"
  using sort_key_stable [of "\<lambda>e. - timestamp e" "- t" xs]
  by (simp add: js_sort_sort_key)

text \<open>
  C3 (as amended). When the cache has nothing to serve and all queries answer, the feed is
  the first \<open>lim\<close> entries of a list \<open>S\<close> that holds exactly the mapped rows of the user
  query followed by the mapped rows of the quote query, in descending order of timestamp,
  events of equal timestamp in the order of that concatenation. There is one such list, so the
  feed is determined by the rows the two queries return; the identifier plays no part in the
  order, and the window taken from the merged list always starts at 0.
\<close>

theorem recentActivities_feed:
  assumes "\<forall>q\<in>set (fetcherQueries RecentActivities). \<not> fails d q"
    and "\<not> truthy (cache_get r (CACHE_KEYS_dashboard_activities (Num off) (Num lim)) now)"
  shows "\<exists>p S. fst (getRecentActivitiesOptimized r d (Num off) (Num lim) now) = Inr (JPage p)
     \<and> data p = map ActivityItem (take lim S)
     \<and> mset S = mset (map mapUser (userActivitiesQuery d off lim)
                      @ map mapQuote (businessActivitiesQuery d lim))
     \<and> sorted_wrt (\<lambda>a b. timestamp b \<le> timestamp a) S
     \<and> (\<forall>t. filter (\<lambda>e. timestamp e = t) S
              = filter (\<lambda>e. timestamp e = t)
                  (map mapUser (userActivitiesQuery d off lim)
                   @ map mapQuote (businessActivitiesQuery d lim)))"
proof -
  let ?acts = "map mapUser (userActivitiesQuery d off lim)
               @ map mapQuote (businessActivitiesQuery d lim)"
  let ?S = "js_sort (\<lambda>a b. timestamp b - timestamp a) ?acts"
  obtain p where p: "recentActivitiesTry d (Num off) (Num lim) = Inr p"
    and dp: "data p = map ActivityItem (take lim ?S)"
    using recentActivitiesTry_ok [OF assms(1), of off lim] by simp
  then have "fst (getRecentActivitiesOptimized r d (Num off) (Num lim) now) = Inr (JPage p)"
    using assms(2) by (simp add: getRecentActivitiesOptimized_def getCachedQuery_miss catchPage_def)
  moreover have "mset ?S = mset ?acts"
    by (simp only: js_sort_sort_key mset_sort)
  ultimately show ?thesis
    using dp js_sort_descending [of ?acts] js_sort_stable [of _ ?acts] by blast
qed

theorem recentActivities_feed_witness:
  "\<not> fails twoQuotesDb (User, FindMany) \<and> \<not> fails twoQuotesDb (Quote, Raw)
   \<and> \<not> fails twoQuotesDb (User, Count) \<and> \<not> fails twoQuotesDb (Quote, Count)
   \<and> \<not> fails twoQuotesDb (FormSubmission, Count)
   \<and> \<not> fails twoQuotesDb (NewsletterSubscriber, Count)
   \<and> \<not> fails twoQuotesDb (AnalyticsEvent, Count)
   \<and> \<not> truthy (cache_get None (CACHE_KEYS_dashboard_activities (Num 0) (Num 20)) 0)
   \<and> (\<exists>p S. fst (getRecentActivitiesOptimized None twoQuotesDb (Num 0) (Num 20) 0) = Inr (JPage p)
        \<and> data p = map ActivityItem (take 20 S)
        \<and> mset S = mset (map mapUser (userActivitiesQuery twoQuotesDb 0 20)
                         @ map mapQuote (businessActivitiesQuery twoQuotesDb 20))
        \<and> sorted_wrt (\<lambda>a b. timestamp b \<le> timestamp a) S
        \<and> (\<forall>t. filter (\<lambda>e. timestamp e = t) S
                 = filter (\<lambda>e. timestamp e = t)
                     (map mapUser (userActivitiesQuery twoQuotesDb 0 20)
                      @ map mapQuote (businessActivitiesQuery twoQuotesDb 20))))"
  using recentActivities_feed [of twoQuotesDb None 0 20 0]
  by (simp add: twoQuotesDb_def emptyDb_def)

lemma twoQuotesDb_healthy:
  "\<forall>q\<in>set (fetcherQueries RecentActivities). \<not> fails twoQuotesDb q"
  by (simp add: twoQuotesDb_def emptyDb_def)

lemma twoQuotes_events:
  "mapQuote (joinUser twoQuotesDb quoteNewer) =
     \<lparr>ev_id = ''q2'', ev_type = quote_request, timestamp = 20,
      ev_actor = \<lparr>actor_id = None, actor_email = ''unknown'', actor_name = Some ''Unknown''\<rparr>,
      ev_data = \<lparr>reference = Some ''R2'', amount = Some 7, items = None, formType = None,
                 data_status = Some ''approved'', message = None\<rparr>,
      ev_status = ''approved''\<rparr>"
  "mapQuote (joinUser twoQuotesDb quoteOlder) =
     \<lparr>ev_id = ''q1'', ev_type = quote_request, timestamp = 10,
      ev_actor = \<lparr>actor_id = None, actor_email = ''unknown'', actor_name = Some ''Unknown''\<rparr>,
      ev_data = \<lparr>reference = Some ''R1'', amount = Some 5, items = None, formType = None,
                 data_status = Some ''pending'', message = None\<rparr>,
      ev_status = ''pending''\<rparr>"
  by (simp_all add: mapQuote_def joinUser_def userOf_def quoteNewer_def quoteOlder_def or_str_def)

lemma tie_events [simp]:
  "timestamp (mapUser user1) = 30" "ev_id (mapUser user1) = ''user_1''"
  "timestamp (mapQuote (joinUser d quoteTieA)) = 30" "ev_id (mapQuote (joinUser d quoteTieA)) = ''a1''"
  "timestamp (mapQuote (joinUser d quoteTieZ)) = 30" "ev_id (mapQuote (joinUser d quoteTieZ)) = ''z1''"
  by (simp_all add: mapUser_def mapQuote_def joinUser_def user1_def quoteTieA_def quoteTieZ_def
        show_nat.simps digit_def)

lemma tieDb_feed:
  assumes "d = emptyDb\<lparr>users := [user1], quotes := [q]\<rparr>"
    and "timestamp (mapQuote (joinUser d q)) = 30"
  shows "fst (getRecentActivitiesOptimized None d (Num 0) (Num 20) 0)
     = Inr (JPage \<lparr>data = [ActivityItem (mapUser user1), ActivityItem (mapQuote (joinUser d q))],
                   total' = 2, offset = Num 0, limit = Num 20, hasMore = False\<rparr>)"
proof -
  have "\<forall>q\<in>set (fetcherQueries RecentActivities). \<not> fails d q"
    using assms(1) by (simp add: emptyDb_def)
  from recentActivitiesTry_ok [OF this, of 0 20] assms show ?thesis
    by (simp add: getRecentActivitiesOptimized_def getCachedQuery_def catchPage_def emptyDb_def
          userActivitiesQuery_def businessActivitiesQuery_def js_sort_def)
qed

text \<open>
  C3 as stated fails, in its window and in its tie-break. Of two quotes, the second page of
  size one (\<open>off = 1\<close>, \<open>lim = 1\<close>) should hold the older quote; the code returns the newer
  one again. And when a user and a quote have the same timestamp, the user's event comes
  first whether the quote's identifier is smaller (\<open>a1\<close>) or greater (\<open>z1\<close>) than
  \<open>user_1\<close>, while the order by identifier puts \<open>a1\<close> first.
\<close>

theorem recentActivities_window_counterexample:
  "fst (getRecentActivitiesOptimized None twoQuotesDb (Num 1) (Num 1) 0)
     = Inr (JPage \<lparr>data = [ActivityItem (mapQuote (joinUser twoQuotesDb quoteNewer))],
                   total' = 2, offset = Num 1, limit = Num 1, hasMore = False\<rparr>)
   \<and> claimedFeed (map mapUser (users twoQuotesDb)
                  @ map mapQuote (map (joinUser twoQuotesDb) (quotes twoQuotesDb))) 1 1
       = [mapQuote (joinUser twoQuotesDb quoteOlder)]
   \<and> mapQuote (joinUser twoQuotesDb quoteNewer) \<noteq> mapQuote (joinUser twoQuotesDb quoteOlder)
   \<and> fst (getRecentActivitiesOptimized None tieDbA (Num 0) (Num 20) 0)
     = Inr (JPage \<lparr>data = [ActivityItem (mapUser user1),
                           ActivityItem (mapQuote (joinUser tieDbA quoteTieA))],
                   total' = 2, offset = Num 0, limit = Num 20, hasMore = False\<rparr>)
   \<and> claimedFeed (map mapUser (users tieDbA)
                  @ map mapQuote (map (joinUser tieDbA) (quotes tieDbA))) 0 20
       = [mapQuote (joinUser tieDbA quoteTieA), mapUser user1]
   \<and> fst (getRecentActivitiesOptimized None tieDbZ (Num 0) (Num 20) 0)
     = Inr (JPage \<lparr>data = [ActivityItem (mapUser user1),
                           ActivityItem (mapQuote (joinUser tieDbZ quoteTieZ))],
                   total' = 2, offset = Num 0, limit = Num 20, hasMore = False\<rparr>)
   \<and> str_less (ev_id (mapQuote (joinUser tieDbA quoteTieA))) (ev_id (mapUser user1))
   \<and> str_less (ev_id (mapUser user1)) (ev_id (mapQuote (joinUser tieDbZ quoteTieZ)))"
proof (intro conjI)
  have rows: "businessActivitiesQuery twoQuotesDb 1 = [joinUser twoQuotesDb quoteNewer]"
    "userActivitiesQuery twoQuotesDb 1 1 = []"
    by (simp_all add: businessActivitiesQuery_def userActivitiesQuery_def twoQuotesDb_def
          emptyDb_def quoteNewer_def quoteOlder_def)
  have "recentActivitiesTry twoQuotesDb (Num 1) (Num 1) =
      Inr \<lparr>data = [ActivityItem (mapQuote (joinUser twoQuotesDb quoteNewer))],
           total' = 2, offset = Num 1, limit = Num 1, hasMore = False\<rparr>"
    unfolding recentActivitiesTry_ok [OF twoQuotesDb_healthy] rows
    by (simp add: js_sort_def twoQuotesDb_def emptyDb_def)
  then show "fst (getRecentActivitiesOptimized None twoQuotesDb (Num 1) (Num 1) 0)
     = Inr (JPage \<lparr>data = [ActivityItem (mapQuote (joinUser twoQuotesDb quoteNewer))],
                   total' = 2, offset = Num 1, limit = Num 1, hasMore = False\<rparr>)"
    by (simp add: getRecentActivitiesOptimized_def getCachedQuery_def catchPage_def)
next
  have "map mapUser (users twoQuotesDb)
          @ map mapQuote (map (joinUser twoQuotesDb) (quotes twoQuotesDb))
        = [mapQuote (joinUser twoQuotesDb quoteOlder), mapQuote (joinUser twoQuotesDb quoteNewer)]"
    by (simp add: twoQuotesDb_def emptyDb_def)
  then show "claimedFeed (map mapUser (users twoQuotesDb)
                  @ map mapQuote (map (joinUser twoQuotesDb) (quotes twoQuotesDb))) 1 1
       = [mapQuote (joinUser twoQuotesDb quoteOlder)]"
    by (simp add: claimedFeed_def js_sort_def byTimestampThenId_def twoQuotes_events)
next
  show "mapQuote (joinUser twoQuotesDb quoteNewer) \<noteq> mapQuote (joinUser twoQuotesDb quoteOlder)"
    by (simp add: twoQuotes_events)
next
  show "fst (getRecentActivitiesOptimized None tieDbA (Num 0) (Num 20) 0)
     = Inr (JPage \<lparr>data = [ActivityItem (mapUser user1),
                           ActivityItem (mapQuote (joinUser tieDbA quoteTieA))],
                   total' = 2, offset = Num 0, limit = Num 20, hasMore = False\<rparr>)"
    by (rule tieDb_feed) (simp_all add: tieDbA_def)
next
  have "map mapUser (users tieDbA) @ map mapQuote (map (joinUser tieDbA) (quotes tieDbA))
        = [mapUser user1, mapQuote (joinUser tieDbA quoteTieA)]"
    by (simp add: tieDbA_def emptyDb_def)
  then show "claimedFeed (map mapUser (users tieDbA)
                  @ map mapQuote (map (joinUser tieDbA) (quotes tieDbA))) 0 20
       = [mapQuote (joinUser tieDbA quoteTieA), mapUser user1]"
    by (simp add: claimedFeed_def js_sort_def byTimestampThenId_def)
next
  show "fst (getRecentActivitiesOptimized None tieDbZ (Num 0) (Num 20) 0)
     = Inr (JPage \<lparr>data = [ActivityItem (mapUser user1),
                           ActivityItem (mapQuote (joinUser tieDbZ quoteTieZ))],
                   total' = 2, offset = Num 0, limit = Num 20, hasMore = False\<rparr>)"
    by (rule tieDb_feed) (simp_all add: tieDbZ_def)
next
  show "str_less (ev_id (mapQuote (joinUser tieDbA quoteTieA))) (ev_id (mapUser user1))"
    by simp
next
  show "str_less (ev_id (mapUser user1)) (ev_id (mapQuote (joinUser tieDbZ quoteTieZ)))"
    by simp
qed

text \<open>
  C4. With one form submission and no user or quote, the total is 1 and the first page should
  hold \<open>min 20 (1 - 0) = 1\<close> event; the code returns none, because only users and quotes are
  merged into the feed while all five sources are counted.
\<close>

theorem recentActivities_length_bug:
  "fst (getRecentActivitiesOptimized None oneFormDb (Num 0) (Num 20) 0)
     = Inr (JPage \<lparr>data = [], total' = 1, offset = Num 0, limit = Num 20, hasMore = False\<rparr>)
   \<and> length ([] :: item list) \<noteq> min 20 (1 - 0)"
proof -
  have "\<forall>q\<in>set (fetcherQueries RecentActivities). \<not> fails oneFormDb q"
    by (simp add: oneFormDb_def emptyDb_def)
  from recentActivitiesTry_ok [OF this, of 0 20] show ?thesis
    by (simp add: getRecentActivitiesOptimized_def getCachedQuery_def catchPage_def oneFormDb_def
          emptyDb_def userActivitiesQuery_def businessActivitiesQuery_def js_sort_def)
qed

section \<open>Cache keys and invalidation\<close>

text \<open>
  A key determines the offset, the limit and the fetcher, except that all calls of
  \<^verbatim>\<open>getQuotesOptimized\<close> share the keys of the quotes, whatever their filter.
\<close>

lemma digit_inj: "a < 10 \<Longrightarrow> b < 10 \<Longrightarrow> digit a = digit b \<Longrightarrow> a = b"
proof -
  assume "a < 10" and "b < 10" and eq: "digit a = digit b"
  then have "a \<in> {0, 1, 2, 3, 4, 5, 6, 7, 8, 9}" and "b \<in> {0, 1, 2, 3, 4, 5, 6, 7, 8, 9}"
    by auto
  with eq show ?thesis
    by (auto simp add: digit_def)
qed

lemma digit_not_colon: "a < 10 \<Longrightarrow> digit a \<noteq> CHR '':''"
proof -
  assume "a < 10"
  then have "a \<in> {0, 1, 2, 3, 4, 5, 6, 7, 8, 9}"
    by auto
  then show ?thesis
    by (auto simp add: digit_def)
qed

lemma digit_not_N: "a < 10 \<Longrightarrow> digit a \<noteq> CHR ''N''"
proof -
  assume "a < 10"
  then have "a \<in> {0, 1, 2, 3, 4, 5, 6, 7, 8, 9}"
    by auto
  then show ?thesis
    by (auto simp add: digit_def)
qed

lemma show_nat_not_Nil: "show_nat n \<noteq> []"
  by (subst show_nat.simps) simp

lemma show_nat_no_colon: "CHR '':'' \<notin> set (show_nat n)"
proof (induction n rule: show_nat.induct)
  case (1 n)
  show ?case
  proof (cases "n < 10")
    case True
    then show ?thesis
      using digit_not_colon [of n] by (subst show_nat.simps) auto
  next
    case False
    with "1" show ?thesis
      using digit_not_colon [of "n mod 10"] by (subst show_nat.simps) auto
  qed
qed

lemma show_nat_not_NaN: "show_nat n \<noteq> ''NaN''"
proof (cases "n < 10")
  case True
  then show ?thesis
    by (subst show_nat.simps) simp
next
  case False
  then show ?thesis
    using digit_not_N [of "n mod 10"] by (subst show_nat.simps) auto
qed

lemma show_num_no_colon: "CHR '':'' \<notin> set (show_num x)"
  by (cases x) (simp_all add: show_nat_no_colon)

lemma show_nat_inj: "show_nat n = show_nat m \<Longrightarrow> n = m"
proof (induction n arbitrary: m rule: show_nat.induct)
  case (1 n)
  show ?case
  proof (cases "n < 10")
    case True
    note n = this
    show ?thesis
    proof (cases "m < 10")
      case True
      with n "1.prems" show ?thesis
        by (simp add: show_nat.simps [of n] show_nat.simps [of m] digit_inj)
    next
      case False
      with n "1.prems" show_nat_not_Nil [of "m div 10"] show ?thesis
        by (simp add: show_nat.simps [of n] show_nat.simps [of m])
    qed
  next
    case False
    note n = this
    show ?thesis
    proof (cases "m < 10")
      case True
      with n "1.prems" show_nat_not_Nil [of "n div 10"] show ?thesis
        by (simp add: show_nat.simps [of n] show_nat.simps [of m])
    next
      case False
      with n "1.prems" have "show_nat (n div 10) = show_nat (m div 10)"
        and "digit (n mod 10) = digit (m mod 10)"
        by (simp_all add: show_nat.simps [of n] show_nat.simps [of m])
      with n "1.IH" have "n div 10 = m div 10" and "n mod 10 = m mod 10"
        by (auto intro: digit_inj)
      then show ?thesis
        by (metis div_mult_mod_eq)
    qed
  qed
qed

lemma split_at_colon:
  assumes "CHR '':'' \<notin> set xs" and "CHR '':'' \<notin> set ys"
    and "xs @ CHR '':'' # us = ys @ CHR '':'' # vs"
  shows "xs = ys \<and> us = vs"
  using assms
proof (induction xs arbitrary: ys)
  case Nil
  then show ?case by (cases ys) auto
next
  case (Cons x xs)
  then show ?case by (cases ys) auto
qed

lemma show_num_inj: "show_num x = show_num y \<Longrightarrow> x = y"
  using show_nat_not_NaN show_nat_not_NaN [symmetric]
  by (cases x; cases y) (auto dest: show_nat_inj)

lemma offset_limit_inj:
  assumes "show_num a @ CHR '':'' # show_num b = show_num c @ CHR '':'' # show_num d"
  shows "a = c \<and> b = d"
proof -
  from assms have "show_num a = show_num c \<and> show_num b = show_num d"
    by (intro split_at_colon show_num_no_colon)
  then show ?thesis
    by (auto dest: show_num_inj)
qed

lemma fetcherKey_inj:
  assumes "fetcherKey f off lim = fetcherKey g off' lim'"
  shows "off = off' \<and> lim = lim' \<and> (f = g \<or> (\<exists>s t. f = Quotes s \<and> g = Quotes t))"
  using assms
  by (cases f; cases g)
     (auto simp add: CACHE_KEYS_dashboard_activities_def CACHE_KEYS_dashboard_quotes_def
        CACHE_KEYS_dashboard_users_def CACHE_KEYS_dashboard_newsletter_def
        CACHE_KEYS_dashboard_forms_def dest: offset_limit_inj)


lemma quotesTry_twoQuotes:
  "quotesTry twoQuotesDb (Num 0) (Num 20) None =
     Inr \<lparr>data = [QuoteItem quoteNewer None, QuoteItem quoteOlder None],
          total' = 2, offset = Num 0, limit = Num 20, hasMore = False\<rparr>"
  "quotesTry twoQuotesDb (Num 0) (Num 20) (Some ''pending'') =
     Inr \<lparr>data = [QuoteItem quoteOlder None],
          total' = 1, offset = Num 0, limit = Num 20, hasMore = False\<rparr>"
  by (simp_all add: quotesTry_def pageTry_queries twoQuotesDb_def emptyDb_def quoteWhere_def
        userOf_def quoteNewer_def quoteOlder_def)

text \<open>
  C5. The key of \<^verbatim>\<open>getQuotesOptimized\<close> is built from offset and limit only. After an
  unfiltered call has cached its page, a call one second later with the filter
  \<^verbatim>\<open>status = 'pending'\<close> is served that unfiltered page (two quotes, one of them approved,
  total 2) without running its query; run against the database it yields the one pending
  quote.
\<close>

theorem quotes_filter_shares_cache_slot:
  "fst (getQuotesOptimized emptyRedis twoQuotesDb (Num 0) (Num 20) None 0)
     = Inr (JPage \<lparr>data = [QuoteItem quoteNewer None, QuoteItem quoteOlder None],
                   total' = 2, offset = Num 0, limit = Num 20, hasMore = False\<rparr>)
   \<and> getQuotesOptimized (fst (snd (getQuotesOptimized emptyRedis twoQuotesDb (Num 0) (Num 20) None 0)))
        twoQuotesDb (Num 0) (Num 20) (Some ''pending'') 1000
     = (Inr (JPage \<lparr>data = [QuoteItem quoteNewer None, QuoteItem quoteOlder None],
                    total' = 2, offset = Num 0, limit = Num 20, hasMore = False\<rparr>),
        fst (snd (getQuotesOptimized emptyRedis twoQuotesDb (Num 0) (Num 20) None 0)), 0)
   \<and> fst (getQuotesOptimized None twoQuotesDb (Num 0) (Num 20) (Some ''pending'') 1000)
     = Inr (JPage \<lparr>data = [QuoteItem quoteOlder None],
                   total' = 1, offset = Num 0, limit = Num 20, hasMore = False\<rparr>)"
proof -
  let ?both = "JPage \<lparr>data = [QuoteItem quoteNewer None, QuoteItem quoteOlder None],
                     total' = 2, offset = Num 0, limit = Num 20, hasMore = False\<rparr>"
  let ?k = "CACHE_KEYS_dashboard_quotes (Num 0) (Num 20)"
  have first: "getQuotesOptimized emptyRedis twoQuotesDb (Num 0) (Num 20) None 0 =
      (Inr ?both, cache_set emptyRedis ?k ?both (Some 10) 0, 1)"
    by (simp add: getQuotesOptimized_def getCachedQuery_miss catchPage_def quotesTry_twoQuotes
          CACHE_TTL_dashboard_realtime_def)
  have "cache_get (cache_set emptyRedis ?k ?both (Some 10) 0) ?k 1000 = ?both"
    by (simp add: cache_get_set_emptyRedis)
  then have second: "getQuotesOptimized (cache_set emptyRedis ?k ?both (Some 10) 0)
      twoQuotesDb (Num 0) (Num 20) (Some ''pending'') 1000
      = (Inr ?both, cache_set emptyRedis ?k ?both (Some 10) 0, 0)"
    using getCachedQuery_hit [of "cache_set emptyRedis ?k ?both (Some 10) 0" ?k 1000]
    by (simp add: getQuotesOptimized_def)
  have third: "fst (getQuotesOptimized None twoQuotesDb (Num 0) (Num 20) (Some ''pending'') 1000)
     = Inr (JPage \<lparr>data = [QuoteItem quoteOlder None],
                   total' = 1, offset = Num 0, limit = Num 20, hasMore = False\<rparr>)"
    by (simp add: getQuotesOptimized_def getCachedQuery_def catchPage_def quotesTry_twoQuotes)
  show ?thesis
    unfolding first fst_conv snd_conv second third by simp
qed

lemma tokenize_literal:
  "\<forall>c\<in>set p. c \<noteq> CHR ''*'' \<and> c \<noteq> CHR ''?'' \<and> c \<noteq> CHR ''['' \<and> c \<noteq> CHR 0x5C \<Longrightarrow>
   tokenize Normal p = map Lit p"
  by (induction p) simp_all

lemma match_literal: "match (map Lit p) k \<longleftrightarrow> k = p"
proof (induction p arbitrary: k)
  case Nil
  then show ?case by simp
next
  case (Cons c p)
  then show ?case by (cases k) auto
qed

lemma glob_dashboard_forms: "glob ''dashboard:forms'' k \<longleftrightarrow> k = ''dashboard:forms''"
proof -
  have "tokenize Normal ''dashboard:forms'' = map Lit ''dashboard:forms''"
    by (rule tokenize_literal) simp
  then show ?thesis
    by (simp only: glob_def match_literal)
qed

lemma invalidate_forms_no_match:
  assumes "\<forall>e\<in>set (entries c). fst e \<noteq> ''dashboard:forms''"
  shows "invalidateDashboardCache (Some c) (Some ''dashboard:forms'') now = Some c"
proof -
  have "filter (\<lambda>e. live now e \<and> glob ''dashboard:forms'' (fst e)) (entries c) = []"
    using assms by (simp add: filter_empty_conv glob_dashboard_forms)
  then show ?thesis
    by (simp add: invalidateDashboardCache_def cache_invalidatePattern_def redis_keys_def)
qed

lemma find_filter_keep: "(\<And>e. P e \<Longrightarrow> Q e) \<Longrightarrow> find P (filter Q xs) = find P xs"
  by (induction xs) auto

text \<open>
  Whatever the store holds, the invalidation that follows an update touches no key other
  than the one that is literally \<^verbatim>\<open>dashboard:forms\<close>: the pages of the form submissions
  stay, and so do those of the quotes.
\<close>

lemma invalidate_forms_keeps_other_keys:
  assumes "k \<noteq> ''dashboard:forms''"
  shows "cache_get (invalidateDashboardCache r (Some ''dashboard:forms'') now) k t = cache_get r k t"
proof (cases r)
  case None
  then show ?thesis
    by (simp add: invalidateDashboardCache_def cache_invalidatePattern_def)
next
  case (Some c)
  let ?ks = "map fst (filter (\<lambda>e. live now e \<and> glob ''dashboard:forms'' (fst e)) (entries c))"
  have "find (\<lambda>e. fst e = k \<and> live t e) (filter (\<lambda>e. fst e \<notin> set ?ks) (entries c))
        = find (\<lambda>e. fst e = k \<and> live t e) (entries c)"
    using assms by (intro find_filter_keep) (auto simp add: glob_dashboard_forms)
  with Some show ?thesis
    by (simp add: invalidateDashboardCache_def cache_invalidatePattern_def redis_keys_def
          redis_del_def cache_get_def redis_get_def)
qed

lemma update_keeps_other_keys:
  assumes "k \<noteq> ''dashboard:forms''"
  shows "cache_get (fst (snd (updateFormSubmissionStatus r d ident status now))) k t
           = cache_get r k t"
  using invalidate_forms_keeps_other_keys [OF assms]
  by (simp add: updateFormSubmissionStatus_def Let_def split: sum.splits)

lemma formsTry_oneForm:
  "formsTry oneFormDb (Num 0) (Num 20) =
     Inr \<lparr>data = [FormItem form1], total' = 1, offset = Num 0, limit = Num 20, hasMore = False\<rparr>"
  by (simp add: formsTry_def pageTry_queries oneFormDb_def emptyDb_def)

text \<open>
  C2. A page of form submissions is cached under \<^verbatim>\<open>dashboard:forms:0:20\<close>. One second
  later \<^verbatim>\<open>updateFormSubmissionStatus\<close> succeeds and calls
  \<^verbatim>\<open>invalidateDashboardCache('dashboard:forms')\<close>; the pattern has no wildcard, matches no
  key, and the store is left as it was. A second later the fetcher is served the cached page,
  in which the submission still has its old status.
\<close>

theorem forms_cache_survives_update:
  "fst (getFormSubmissionsOptimized emptyRedis oneFormDb (Num 0) (Num 20) 0)
     = Inr (JPage \<lparr>data = [FormItem form1], total' = 1, offset = Num 0, limit = Num 20, hasMore = False\<rparr>)
   \<and> updateFormSubmissionStatus
        (fst (snd (getFormSubmissionsOptimized emptyRedis oneFormDb (Num 0) (Num 20) 0)))
        oneFormDb ''f1'' ''read'' 1000
     = (Inr (form1\<lparr>f_status := ''read''\<rparr>),
        fst (snd (getFormSubmissionsOptimized emptyRedis oneFormDb (Num 0) (Num 20) 0)),
        oneFormDb\<lparr>formSubmissions := [form1\<lparr>f_status := ''read''\<rparr>]\<rparr>)
   \<and> getFormSubmissionsOptimized
        (fst (snd (getFormSubmissionsOptimized emptyRedis oneFormDb (Num 0) (Num 20) 0)))
        (oneFormDb\<lparr>formSubmissions := [form1\<lparr>f_status := ''read''\<rparr>]\<rparr>) (Num 0) (Num 20) 2000
     = (Inr (JPage \<lparr>data = [FormItem form1], total' = 1, offset = Num 0, limit = Num 20, hasMore = False\<rparr>),
        fst (snd (getFormSubmissionsOptimized emptyRedis oneFormDb (Num 0) (Num 20) 0)), 0)"
proof -
  let ?page = "JPage \<lparr>data = [FormItem form1], total' = 1, offset = Num 0, limit = Num 20, hasMore = False\<rparr>"
  let ?k = "CACHE_KEYS_dashboard_forms (Num 0) (Num 20)"
  let ?c = "\<lparr>entries = [(?k, ?page, Some 10000)], reachable = True\<rparr>"
  have store: "cache_set emptyRedis ?k ?page (Some 10) 0 = Some ?c"
    by (simp add: emptyRedis_def cache_set_def redis_setex_def)
  have "getFormSubmissionsOptimized emptyRedis oneFormDb (Num 0) (Num 20) 0 =
      (Inr ?page, cache_set emptyRedis ?k ?page (Some 10) 0, 1)"
    by (simp add: getFormSubmissionsOptimized_def getCachedQuery_miss catchPage_def formsTry_oneForm
          CACHE_TTL_dashboard_realtime_def)
  then have first: "getFormSubmissionsOptimized emptyRedis oneFormDb (Num 0) (Num 20) 0 = (Inr ?page, Some ?c, 1)"
    unfolding store .
  have "?k \<noteq> ''dashboard:forms''"
    by (simp add: CACHE_KEYS_dashboard_forms_def)
  then have keep: "invalidateDashboardCache (Some ?c) (Some ''dashboard:forms'') 1000 = Some ?c"
    by (intro invalidate_forms_no_match) simp
  have upd: "formUpdate oneFormDb ''f1'' ''read'' =
      (5, Inr (form1\<lparr>f_status := ''read''\<rparr>,
               oneFormDb\<lparr>formSubmissions := [form1\<lparr>f_status := ''read''\<rparr>]\<rparr>))"
    by (simp add: formUpdate_def oneFormDb_def emptyDb_def healthy_def noThrow_def form1_def)
  have second: "updateFormSubmissionStatus (Some ?c) oneFormDb ''f1'' ''read'' 1000 =
      (Inr (form1\<lparr>f_status := ''read''\<rparr>), Some ?c,
       oneFormDb\<lparr>formSubmissions := [form1\<lparr>f_status := ''read''\<rparr>]\<rparr>)"
    using keep by (simp add: updateFormSubmissionStatus_def upd withTimeout_def)
  have "cache_get (Some ?c) ?k 2000 = ?page"
    by (simp add: cache_get_def redis_get_def live_def)
  then have third: "getFormSubmissionsOptimized (Some ?c)
      (oneFormDb\<lparr>formSubmissions := [form1\<lparr>f_status := ''read''\<rparr>]\<rparr>) (Num 0) (Num 20) 2000
      = (Inr ?page, Some ?c, 0)"
    using getCachedQuery_hit [of "Some ?c" ?k 2000]
    by (simp add: getFormSubmissionsOptimized_def)
  show ?thesis
    unfolding first fst_conv snd_conv second third by simp
qed

section \<open>The authorization gate of the read endpoint\<close>

text \<open>
  What the gate does: it answers 401, with the store untouched and no fetcher invoked,
  exactly when the request has no \<^verbatim>\<open>authorization\<close> header starting with
  \<^verbatim>\<open>Bearer \<close> and its hostname contains neither \<^verbatim>\<open>localhost\<close> nor
  \<^verbatim>\<open>127.0.0.1\<close>. The token after \<^verbatim>\<open>Bearer \<close> is not examined.
\<close>

lemma GET_rejected:
  "rejectsUnauthenticated req \<Longrightarrow>
   GET md5 toISOString elapsed r d req now = (Unauthorized401, r, 0)"
  by (simp add: GET_def Let_def)

lemma GET_passed:
  "\<not> rejectsUnauthenticated req \<Longrightarrow>
   fst (GET md5 toISOString elapsed r d req now) \<noteq> Unauthorized401"
  by (simp add: GET_def Let_def split: prod.splits)

lemma rejectsUnauthenticated_iff:
  "rejectsUnauthenticated req \<longleftrightarrow>
     (case authorization req of None \<Rightarrow> True | Some h \<Rightarrow> \<not> startsWith h ''Bearer '')
     \<and> \<not> includes_str (hostname req) ''localhost''
     \<and> \<not> includes_str (hostname req) ''127.0.0.1''"
  by (auto simp add: rejectsUnauthenticated_def split: option.splits)

lemma newUsersTry_oneUser:
  "newUsersTry oneUserDb (Num 0) (Num 20) =
     Inr \<lparr>data = [UserItem user1], total' = 1, offset = Num 0, limit = Num 20, hasMore = False\<rparr>"
  by (simp add: newUsersTry_def pageTry_queries oneUserDb_def emptyDb_def user1_def)

lemma GET_serves_oneUser:
  assumes "\<not> rejectsUnauthenticated req" and "ifNoneMatch req = None"
    and "pageParam req = None" and "limitParam req = None"
  shows "\<exists>body. GET etagStub isoStub 0 None oneUserDb req 0 = (Ok200 body ''etag'', None, 6)
           \<and> rd_newUsers body
               = JPage \<lparr>data = [UserItem user1], total' = 1, offset = Num 0, limit = Num 20,
                        hasMore = False\<rparr>"
  using GET_passed_None [OF assms(1,2), of etagStub isoStub 0 oneUserDb 0] assms(3,4)
  by (auto simp add: pageOf_def limitOf_def newUsersTry_oneUser catchPage_def settledOr_def
        etagStub_def)

text \<open>
  C7. The endpoint serves requests that carry no valid credential. A request without any
  \<^verbatim>\<open>Authorization\<close> header is answered with status 200 and the data of the dashboard,
  here the one user of the database, when its hostname is \<^verbatim>\<open>localhost\<close> and also when
  it is \<^verbatim>\<open>notlocalhost.example.com\<close>, which merely contains that word; so is a request
  from \<^verbatim>\<open>admin.example.com\<close> whose header is \<^verbatim>\<open>Bearer x\<close>, a token that nobody
  issued and nothing verifies. In each case all six data-fetching functions run their
  queries. The same request without a header from \<^verbatim>\<open>admin.example.com\<close> is answered
  401 and no fetcher runs.
\<close>

theorem GET_serves_without_valid_credential:
  "authorization localRequest = None \<and> hostname localRequest = ''localhost''
   \<and> (\<exists>body. GET etagStub isoStub 0 None oneUserDb localRequest 0
                 = (Ok200 body ''etag'', None, 6)
          \<and> rd_newUsers body
              = JPage \<lparr>data = [UserItem user1], total' = 1, offset = Num 0, limit = Num 20,
                       hasMore = False\<rparr>)
   \<and> authorization lookalikeRequest = None
   \<and> hostname lookalikeRequest = ''notlocalhost.example.com''
   \<and> (\<exists>body. GET etagStub isoStub 0 None oneUserDb lookalikeRequest 0
                 = (Ok200 body ''etag'', None, 6)
          \<and> rd_newUsers body
              = JPage \<lparr>data = [UserItem user1], total' = 1, offset = Num 0, limit = Num 20,
                       hasMore = False\<rparr>)
   \<and> authorization bearerRequest = Some ''Bearer x''
   \<and> hostname bearerRequest = ''admin.example.com''
   \<and> (\<exists>body. GET etagStub isoStub 0 None oneUserDb bearerRequest 0
                 = (Ok200 body ''etag'', None, 6)
          \<and> rd_newUsers body
              = JPage \<lparr>data = [UserItem user1], total' = 1, offset = Num 0, limit = Num 20,
                       hasMore = False\<rparr>)
   \<and> authorization anonymousRequest = None
   \<and> hostname anonymousRequest = ''admin.example.com''
   \<and> GET etagStub isoStub 0 None oneUserDb anonymousRequest 0 = (Unauthorized401, None, 0)"
proof -
  have "\<not> rejectsUnauthenticated localRequest"
    by (simp add: rejectsUnauthenticated_def localRequest_def)
  then have loc: "\<exists>body. GET etagStub isoStub 0 None oneUserDb localRequest 0
                 = (Ok200 body ''etag'', None, 6)
          \<and> rd_newUsers body
              = JPage \<lparr>data = [UserItem user1], total' = 1, offset = Num 0, limit = Num 20,
                       hasMore = False\<rparr>"
    by (rule GET_serves_oneUser) (simp_all add: localRequest_def)
  have "\<not> rejectsUnauthenticated lookalikeRequest"
    by (simp add: rejectsUnauthenticated_def lookalikeRequest_def)
  then have look: "\<exists>body. GET etagStub isoStub 0 None oneUserDb lookalikeRequest 0
                 = (Ok200 body ''etag'', None, 6)
          \<and> rd_newUsers body
              = JPage \<lparr>data = [UserItem user1], total' = 1, offset = Num 0, limit = Num 20,
                       hasMore = False\<rparr>"
    by (rule GET_serves_oneUser) (simp_all add: lookalikeRequest_def)
  have "\<not> rejectsUnauthenticated bearerRequest"
    by (simp add: rejectsUnauthenticated_def bearerRequest_def)
  then have bear: "\<exists>body. GET etagStub isoStub 0 None oneUserDb bearerRequest 0
                 = (Ok200 body ''etag'', None, 6)
          \<and> rd_newUsers body
              = JPage \<lparr>data = [UserItem user1], total' = 1, offset = Num 0, limit = Num 20,
                       hasMore = False\<rparr>"
    by (rule GET_serves_oneUser) (simp_all add: bearerRequest_def)
  have "rejectsUnauthenticated anonymousRequest"
    by (simp add: rejectsUnauthenticated_def anonymousRequest_def)
  then have anon: "GET etagStub isoStub 0 None oneUserDb anonymousRequest 0
      = (Unauthorized401, None, 0)"
    by (rule GET_rejected)
  have fields: "authorization localRequest = None" "hostname localRequest = ''localhost''"
    "authorization lookalikeRequest = None"
    "hostname lookalikeRequest = ''notlocalhost.example.com''"
    "authorization bearerRequest = Some ''Bearer x''"
    "hostname bearerRequest = ''admin.example.com''"
    "authorization anonymousRequest = None"
    "hostname anonymousRequest = ''admin.example.com''"
    by (simp_all add: localRequest_def lookalikeRequest_def bearerRequest_def
          anonymousRequest_def)
  from loc look bear anon fields show ?thesis
    by (intro conjI)
qed

end
